theory Spec2Isabelle
  imports Main "HOL-Library.Word" "HOL-Library.Char_ord" "HOL-Library.List_Lexorder"
begin

section \<open>Exceptions\<close>

text \<open>
  Every \<^verbatim>\<open>throw\<close> of StorageReplicatedMergeTree.cpp and of the helpers it calls is a
  value of this type; a function that can throw returns \<open>error + 'a\<close> with \<open>Inl\<close> the
  exception. \<open>KeeperException\<close> carries the coordinator's return code.
\<close>

datatype ReturnCode = Ok | NoNode | NodeExists | NotEmpty

datatype error =
    CANNOT_PARSE_INPUT_ASSERTION_FAILED
  | CANNOT_PARSE_QUOTED_STRING
  | CANNOT_PARSE_ESCAPE_SEQUENCE
  | UNKNOWN_IDENTIFIER
  | NOT_FOUND_EXPECTED_DATA_PART
  | TOO_MANY_UNEXPECTED_DATA_PARTS
  | NO_REPLICA_HAS_PART
  | UNEXPECTED_LOG_ENTRY_TYPE
  | BAD_CAST
  | KeeperException ReturnCode
  | ExternalFailure string

definition bind_err :: "error + 'a \<Rightarrow> ('a \<Rightarrow> error + 'b) \<Rightarrow> error + 'b" where
  "bind_err m f = (case m of Inl e \<Rightarrow> Inl e | Inr x \<Rightarrow> f x)"

section \<open>Text buffers\<close>

text \<open>
  Modelled from the spec: the helpers of DB/IO that read and write text are not part of
  StorageReplicatedMergeTree.cpp; the spec gives the texts they work on as records of
  lines (the log entry, the metadata, the host text). A \<^verbatim>\<open>ReadBuffer\<close> over a string
  is its unread remainder; a \<^verbatim>\<open>WriteBuffer\<close> is the text written so far.

  \<open>assertString s\<close> consumes \<open>s\<close> if the buffer starts with it and throws otherwise;
  \<open>assertEOF\<close> throws unless the buffer is exhausted.

  \<open>readString\<close> reads one field of a line: the characters up to, not including, the
  next character at which a field ends, or up to the end of the input. The set of
  field-ending characters is the parameter \<open>stop\<close>; the line feed is one of them.
\<close>

definition assertString :: "string \<Rightarrow> string \<Rightarrow> error + string" where
  "assertString s buf =
     (if take (length s) buf = s then Inr (drop (length s) buf)
      else Inl CANNOT_PARSE_INPUT_ASSERTION_FAILED)"

definition assertEOF :: "string \<Rightarrow> error + unit" where
  "assertEOF buf = (if buf = [] then Inr () else Inl CANNOT_PARSE_INPUT_ASSERTION_FAILED)"

definition readString :: "(char \<Rightarrow> bool) \<Rightarrow> string \<Rightarrow> string \<times> string" where
  "readString stop buf = (takeWhile (\<lambda>c. \<not> stop c) buf, dropWhile (\<lambda>c. \<not> stop c) buf)"

definition line_feed :: "char \<Rightarrow> bool" where
  "line_feed c = (c = CHR 0x0A)"

section \<open>Log entries and their text format\<close>

datatype Type = GET_PART | MERGE_PARTS

text \<open>
  \<open>type\<close> is a field of the enum type that \<open>readText\<close> assigns for the kinds
  \<open>get\<close> and \<open>merge\<close> only: \<open>None\<close> stands for the value of a field that was
  never assigned, which is neither \<open>GET_PART\<close> nor \<open>MERGE_PARTS\<close> (the case
  \<^verbatim>\<open>executeLogEntry\<close> answers with "Unexpected log entry type").
\<close>

record LogEntry =
  znode_name :: string
  type :: "Type option"
  source_replica :: string
  new_part_name :: string
  parts_to_merge :: "string list"

definition new_LogEntry :: LogEntry where
  "new_LogEntry = \<lparr>znode_name = [], type = None, source_replica = [],
                    new_part_name = [], parts_to_merge = []\<rparr>"

text \<open>\<^verbatim>\<open>LogEntry::writeText\<close>.\<close>

definition writeText :: "LogEntry \<Rightarrow> string" where
  "writeText e =
     ''format version: 1\<newline>'' @ ''source replica: '' @ source_replica e @ ''\<newline>'' @
     (case type e of
        Some GET_PART \<Rightarrow> ''get\<newline>'' @ new_part_name e
      | Some MERGE_PARTS \<Rightarrow>
          ''merge\<newline>'' @ concat (map (\<lambda>s. s @ ''\<newline>'') (parts_to_merge e)) @
          ''into\<newline>'' @ new_part_name e
      | None \<Rightarrow> []) @
     ''\<newline>''"

text \<open>
  The \<^verbatim>\<open>while (true)\<close> loop of \<^verbatim>\<open>LogEntry::readText\<close>: \<open>acc\<close> is
  \<^verbatim>\<open>parts_to_merge\<close> so far. Every round consumes at least the line feed, so the loop
  ends on every input.
\<close>

function merge_lines :: "(char \<Rightarrow> bool) \<Rightarrow> string list \<Rightarrow> string \<Rightarrow> error + (string list \<times> string)" where
  "merge_lines stop acc buf =
     (case readString stop buf of
        (s, b1) \<Rightarrow>
          (case assertString ''\<newline>'' b1 of
             Inl err \<Rightarrow> Inl err
           | Inr b2 \<Rightarrow> if s = ''into'' then Inr (acc, b2) else merge_lines stop (acc @ [s]) b2))"
  by pat_completeness auto
termination
proof (relation "measure (\<lambda>(stop, acc, buf). length buf)")
  show "wf (measure (\<lambda>(stop, acc, buf). length buf))"
    by simp
next
  fix stop :: "char \<Rightarrow> bool" and acc :: "string list" and buf s b1 b2
  assume x: "(s, b1) = readString stop buf"
    and a: "assertString ''\<newline>'' b1 = Inr b2"
  from x have b1: "b1 = dropWhile (\<lambda>c. \<not> stop c) buf"
    by (simp add: readString_def)
  from a have "take 1 b1 = ''\<newline>''" and "b2 = drop 1 b1"
    by (auto simp: assertString_def split: if_splits)
  then have "length b2 < length b1"
    by (cases b1) auto
  moreover have "length b1 \<le> length buf"
    unfolding b1 by (rule length_dropWhile_le)
  ultimately show "((stop, acc @ [s], b2), (stop, acc, buf)) \<in> measure (\<lambda>(stop, acc, buf). length buf)"
    by simp
qed

declare merge_lines.simps [simp del]

text \<open>\<^verbatim>\<open>LogEntry::readText\<close>, on the entry \<open>e\<close> it is called on.\<close>

definition readText :: "(char \<Rightarrow> bool) \<Rightarrow> LogEntry \<Rightarrow> string \<Rightarrow> error + (LogEntry \<times> string)" where
  "readText stop e buf =
     bind_err (assertString ''format version: 1\<newline>'' buf) (\<lambda>b1.
     bind_err (assertString ''source replica: '' b1) (\<lambda>b2.
     case readString stop b2 of (src, b3) \<Rightarrow>
     bind_err (assertString ''\<newline>'' b3) (\<lambda>b4.
     case readString stop b4 of (type_str, b5) \<Rightarrow>
     bind_err (assertString ''\<newline>'' b5) (\<lambda>b6.
     bind_err
       (if type_str = ''get'' then
          (case readString stop b6 of (npn, b7) \<Rightarrow>
             Inr (e\<lparr>type := Some GET_PART, source_replica := src, new_part_name := npn\<rparr>, b7))
        else if type_str = ''merge'' then
          bind_err (merge_lines stop (parts_to_merge e) b6) (\<lambda>(ps, b7).
            case readString stop b7 of (npn, b8) \<Rightarrow>
              Inr (e\<lparr>type := Some MERGE_PARTS, source_replica := src,
                     new_part_name := npn, parts_to_merge := ps\<rparr>, b8))
        else Inr (e\<lparr>source_replica := src\<rparr>, b6))
       (\<lambda>(e', b9).
     bind_err (assertString ''\<newline>'' b9) (\<lambda>b10. Inr (e', b10)))))))"

text \<open>
  Modelled from the spec: \<^verbatim>\<open>LogEntry::parse\<close> is declared in the header; it takes
  the "LogEntry text": \<open>readText\<close> on a new entry over the whole string.
\<close>

definition parse :: "(char \<Rightarrow> bool) \<Rightarrow> string \<Rightarrow> error + LogEntry" where
  "parse stop s =
     bind_err (readText stop new_LogEntry s) (\<lambda>(e, rest).
     bind_err (assertEOF rest) (\<lambda>_. Inr e))"

section \<open>Choosing an entry to execute\<close>

text \<open>
  \<^verbatim>\<open>shouldExecuteLogEntry\<close>; \<open>fp\<close> is the member \<^verbatim>\<open>future_parts\<close>.
  The loop over \<^verbatim>\<open>parts_to_merge\<close> returns \<open>false\<close> at the first name found in it
  (the trace message it writes then is left out).
\<close>

fun no_future_part :: "string set \<Rightarrow> string list \<Rightarrow> bool" where
  "no_future_part fp [] = True"
| "no_future_part fp (n # ns) = (if n \<in> fp then False else no_future_part fp ns)"

definition shouldExecuteLogEntry :: "string set \<Rightarrow> LogEntry \<Rightarrow> bool" where
  "shouldExecuteLogEntry fp entry =
     (if type entry = Some MERGE_PARTS then no_future_part fp (parts_to_merge entry) else True)"

text \<open>A string without a field-ending character.\<close>

definition plain :: "(char \<Rightarrow> bool) \<Rightarrow> string \<Rightarrow> bool" where
  "plain stop s = (\<forall>c \<in> set s. \<not> stop c)"

section \<open>Numbers in node names\<close>

text \<open>
  \<^verbatim>\<open>toString\<close> of an unsigned number is its decimal text. Sequence numbers in node
  names are padded with zeros on the left to 10 characters:
  \<^verbatim>\<open>while (s.size() < 10) s = '0' + s;\<close>
\<close>

fun digits :: "nat \<Rightarrow> string" where
  "digits n = (if n < 10 then [''0123456789'' ! n]
               else digits (n div 10) @ [''0123456789'' ! (n mod 10)])"

declare digits.simps [simp del]

definition toString :: "64 word \<Rightarrow> string" where
  "toString w = digits (unat w)"

definition pad10 :: "string \<Rightarrow> string" where
  "pad10 s = replicate (10 - length s) CHR ''0'' @ s"

section \<open>Data parts and the collaborators of the storage\<close>

record DataPart =
  name :: string
  left :: "64 word"
  right :: "64 word"
  checksums :: string


datatype Priority = PRIO_TRACE | PRIO_DEBUG | PRIO_INFO | PRIO_ERROR

section \<open>The coordinator\<close>

text \<open>
  Modelled from the spec: the coordinator client \<^verbatim>\<open>zkutil::ZooKeeper\<close> is not part of
  StorageReplicatedMergeTree.cpp. The spec describes it as a hierarchical node store
  offering \<open>create\<close>, \<open>get\<close>, \<open>set\<close>, \<open>exists\<close>, \<open>children\<close>, \<open>tryRemove\<close> and
  \<open>multi(ops)\<close>, an atomic batch of Create/SetData/Remove, with sequential child
  creation, and with \<open>czxid\<close> the creation transaction id of a node.

  The store is the list of its nodes, each under its full path, in creation order.
  A node carries its data, its \<open>czxid\<close> and the counter its parent role needs: the
  number of changes to its children, whose decimal text padded to 10 digits is the
  suffix of the next sequential child. A write transaction takes the next transaction
  id. Creating a node needs its parent (the root, written as the empty path, always
  exists) and a fresh path; setting data or removing needs the node; removing needs
  it to have no children. The session and its ephemeral nodes are not modelled: an
  ephemeral node is a node.
\<close>

datatype CreateMode = Persistent | Ephemeral | PersistentSequential | EphemeralSequential

record znode =
  node_data :: string
  node_czxid :: int
  node_cversion :: nat

record ZooKeeper =
  nodes :: "(string \<times> znode) list"
  last_zxid :: int

datatype Op = Create string string CreateMode | SetData string string | Remove string

datatype OpResult = CreateResult string | SetDataResult | RemoveResult

definition parent_path :: "string \<Rightarrow> string" where
  "parent_path p = rev (drop 1 (dropWhile (\<lambda>c. c \<noteq> CHR ''/'') (rev p)))"

definition is_child :: "string \<Rightarrow> string \<Rightarrow> bool" where
  "is_child p q = (take (length p + 1) q = p @ ''/'' \<and> length p + 1 < length q \<and>
                   CHR ''/'' \<notin> set (drop (length p + 1) q))"

definition children :: "ZooKeeper \<Rightarrow> string \<Rightarrow> string list" where
  "children z p = map (\<lambda>(q, n). drop (length p + 1) q) (filter (\<lambda>(q, n). is_child p q) (nodes z))"

definition exists :: "ZooKeeper \<Rightarrow> string \<Rightarrow> bool" where
  "exists z p = (map_of (nodes z) p \<noteq> None)"

definition tryGet :: "ZooKeeper \<Rightarrow> string \<Rightarrow> znode option" where
  "tryGet z p = map_of (nodes z) p"

definition get :: "ZooKeeper \<Rightarrow> string \<Rightarrow> error + string" where
  "get z p = (case map_of (nodes z) p of
                None \<Rightarrow> Inl (KeeperException NoNode)
              | Some n \<Rightarrow> Inr (node_data n))"

definition getChildren :: "ZooKeeper \<Rightarrow> string \<Rightarrow> error + string list" where
  "getChildren z p = (if exists z p then Inr (children z p) else Inl (KeeperException NoNode))"

definition change_node :: "string \<Rightarrow> (znode \<Rightarrow> znode) \<Rightarrow> (string \<times> znode) list \<Rightarrow> (string \<times> znode) list" where
  "change_node p f ns = map (\<lambda>(q, n). if q = p then (q, f n) else (q, n)) ns"

definition child_changed :: "string \<Rightarrow> (string \<times> znode) list \<Rightarrow> (string \<times> znode) list" where
  "child_changed parent ns = change_node parent (\<lambda>n. n\<lparr>node_cversion := Suc (node_cversion n)\<rparr>) ns"

definition next_sequence :: "ZooKeeper \<Rightarrow> string \<Rightarrow> nat" where
  "next_sequence z parent = (case map_of (nodes z) parent of None \<Rightarrow> 0 | Some n \<Rightarrow> node_cversion n)"

text \<open>One operation of a transaction with id \<open>zx\<close>.\<close>

fun apply_op :: "int \<Rightarrow> ZooKeeper \<Rightarrow> Op \<Rightarrow> ReturnCode + (ZooKeeper \<times> OpResult)" where
  "apply_op zx z (Create p d mode) =
     (let parent = parent_path p in
      if parent \<noteq> [] \<and> \<not> exists z parent then Inl NoNode
      else
        let p' = (if mode = PersistentSequential \<or> mode = EphemeralSequential
                  then p @ pad10 (digits (next_sequence z parent)) else p)
        in if exists z p' then Inl NodeExists
           else Inr (z\<lparr>nodes := child_changed parent (nodes z) @
                                  [(p', \<lparr>node_data = d, node_czxid = zx, node_cversion = 0\<rparr>)]\<rparr>,
                     CreateResult p'))"
| "apply_op zx z (SetData p d) =
     (if exists z p then Inr (z\<lparr>nodes := change_node p (\<lambda>n. n\<lparr>node_data := d\<rparr>) (nodes z)\<rparr>, SetDataResult)
      else Inl NoNode)"
| "apply_op zx z (Remove p) =
     (if \<not> exists z p then Inl NoNode
      else if children z p \<noteq> [] then Inl NotEmpty
      else Inr (z\<lparr>nodes := child_changed (parent_path p) (filter (\<lambda>(q, n). q \<noteq> p) (nodes z))\<rparr>,
                RemoveResult))"

fun apply_ops :: "int \<Rightarrow> ZooKeeper \<Rightarrow> Op list \<Rightarrow> ReturnCode + (ZooKeeper \<times> OpResult list)" where
  "apply_ops zx z [] = Inr (z, [])"
| "apply_ops zx z (op # ops) =
     (case apply_op zx z op of
        Inl code \<Rightarrow> Inl code
      | Inr (z', r) \<Rightarrow>
          (case apply_ops zx z' ops of
             Inl code \<Rightarrow> Inl code
           | Inr (z'', rs) \<Rightarrow> Inr (z'', r # rs)))"

text \<open>
  Modelled from the spec: \<open>multi(ops)\<close> is an "atomic batch of Create/SetData/Remove":
  all operations take effect in one transaction, or, when one of them fails, none does
  and the exception carries the code of the failed one.
\<close>

definition multi :: "ZooKeeper \<Rightarrow> Op list \<Rightarrow> error + (ZooKeeper \<times> OpResult list)" where
  "multi z ops =
     (case apply_ops (last_zxid z + 1) z ops of
        Inl code \<Rightarrow> Inl (KeeperException code)
      | Inr (z', rs) \<Rightarrow> Inr (z'\<lparr>last_zxid := last_zxid z + 1\<rparr>, rs))"

definition create :: "ZooKeeper \<Rightarrow> string \<Rightarrow> string \<Rightarrow> CreateMode \<Rightarrow> error + (ZooKeeper \<times> string)" where
  "create z p d mode =
     (case multi z [Create p d mode] of
        Inl err \<Rightarrow> Inl err
      | Inr (z', rs) \<Rightarrow> (case rs of [CreateResult p'] \<Rightarrow> Inr (z', p') | _ \<Rightarrow> Inr (z', p)))"

definition tryRemove :: "ZooKeeper \<Rightarrow> string \<Rightarrow> ZooKeeper \<times> ReturnCode" where
  "tryRemove z p =
     (case apply_ops (last_zxid z + 1) z [Remove p] of
        Inl code \<Rightarrow> (z, code)
      | Inr (z', rs) \<Rightarrow> (z'\<lparr>last_zxid := last_zxid z + 1\<rparr>, Ok))"

section \<open>The storage\<close>

text \<open>
  Modelled from the spec: \<^verbatim>\<open>AbandonableLockInZooKeeper::check\<close> returns the state of
  the lock node at a path, "one of {LIVE, ABANDONED, ...}".
\<close>

datatype LockState = LIVE | ABANDONED | OTHER_STATE

text \<open>
  The collaborators of the storage that are not part of StorageReplicatedMergeTree.cpp
  are parameters: the part store \<^verbatim>\<open>MergeTreeData\<close> with its state \<open>'d\<close> (and the merger
  working on it), the part fetcher, the check of an abandonable lock, the permutation
  \<^verbatim>\<open>std::random_shuffle\<close> applies, and the characters at which \<open>readString\<close> ends a
  field. \<open>mergeParts\<close> and the fetcher can throw. The port given to the fetcher is
  an \<^verbatim>\<open>int\<close>, a signed number of 32 bits.
\<close>

record 'd Collaborators =
  field_end :: "char \<Rightarrow> bool"
  getDataParts :: "'d \<Rightarrow> DataPart list"
  getContainingPart :: "'d \<Rightarrow> string \<Rightarrow> DataPart option"
  renameAndDetachPart :: "'d \<Rightarrow> DataPart \<Rightarrow> string \<Rightarrow> 'd"
  mergeParts :: "'d \<Rightarrow> DataPart list \<Rightarrow> string \<Rightarrow> error + ('d \<times> DataPart)"
  clearOldParts :: "'d \<Rightarrow> 'd"
  renameTempPartAndReplace :: "'d \<Rightarrow> DataPart \<Rightarrow> 'd \<times> DataPart \<times> DataPart list"
  fetcher_fetchPart :: "string \<Rightarrow> string \<Rightarrow> string \<Rightarrow> 32 word \<Rightarrow> error + DataPart"
  random_shuffle :: "string list \<Rightarrow> string list"
  lock_check :: "ZooKeeper \<Rightarrow> string \<Rightarrow> LockState"

text \<open>
  The members of \<^verbatim>\<open>StorageReplicatedMergeTree\<close> the functions below read and write.
  \<open>log\<close> is the text given to the logger, with its priority.
\<close>

record 'd Storage =
  zookeeper_path :: string
  replica_path :: string
  replica_name :: string
  zookeeper :: ZooKeeper
  data :: 'd
  queue :: "LogEntry list"
  future_parts :: "string set"
  currently_merging :: "string set"
  log :: "(Priority \<times> string) list"
  shutdown_called :: bool

definition LOG :: "Priority \<Rightarrow> string \<Rightarrow> 'd Storage \<Rightarrow> 'd Storage" where
  "LOG prio msg st = st\<lparr>log := log st @ [(prio, msg)]\<rparr>"

subsection \<open>checkParts\<close>

text \<open>
  The first loop of \<^verbatim>\<open>checkParts\<close> over the local parts: a part whose name is expected
  is struck from \<open>expected_parts\<close>, any other is appended to \<open>unexpected_parts\<close>.
\<close>

fun sort_out_parts :: "string set \<Rightarrow> DataPart list \<Rightarrow> DataPart list \<Rightarrow> string set \<times> DataPart list" where
  "sort_out_parts expected_parts unexpected_parts [] = (expected_parts, unexpected_parts)"
| "sort_out_parts expected_parts unexpected_parts (part # parts) =
     (if name part \<in> expected_parts
      then sort_out_parts (expected_parts - {name part}) unexpected_parts parts
      else sort_out_parts expected_parts (unexpected_parts @ [part]) parts)"

text \<open>The last loop: every unexpected part is reported and detached.\<close>

fun detach_parts :: "'d Collaborators \<Rightarrow> 'd Storage \<Rightarrow> DataPart list \<Rightarrow> 'd Storage" where
  "detach_parts ext st [] = st"
| "detach_parts ext st (part # parts) =
     detach_parts ext
       ((LOG PRIO_ERROR (''Unexpected part '' @ name part @ ''. Renaming it to ignored_'' @ name part) st)
          \<lparr>data := renameAndDetachPart ext (data st) part ''ignored_''\<rparr>)
       parts"

definition checkParts :: "'d Collaborators \<Rightarrow> 'd Storage \<Rightarrow> error + 'd Storage" where
  "checkParts ext st =
     bind_err (getChildren (zookeeper st) (replica_path st @ ''/parts'')) (\<lambda>expected_parts_vec.
       case sort_out_parts (set expected_parts_vec) [] (getDataParts ext (data st)) of
         (expected_parts, unexpected_parts) \<Rightarrow>
           if expected_parts \<noteq> {} then Inl NOT_FOUND_EXPECTED_DATA_PART
           else if 1 < length unexpected_parts then Inl TOO_MANY_UNEXPECTED_DATA_PARTS
           else Inr (detach_parts ext st unexpected_parts))"

subsection \<open>canMergeParts\<close>

definition block_path :: "string \<Rightarrow> 64 word \<Rightarrow> string" where
  "block_path zk_path number = zk_path @ ''/block_numbers/block-'' @ pad10 (toString number)"

text \<open>
  The loop \<^verbatim>\<open>for (UInt64 number = left->right + 1; number <= right->left - 1; ++number)\<close>
  of \<^verbatim>\<open>canMergeParts\<close>, from the current \<open>number\<close> to the bound \<open>right->left - 1\<close>. The
  arithmetic is that of 64-bit unsigned numbers; when the bound is the greatest of them
  the condition never fails, so the loop need not end: the result is \<open>None\<close> then.
  The debug message before \<^verbatim>\<open>return false\<close> is left out.
\<close>

partial_function (option) blocks_abandoned :: "(string \<Rightarrow> LockState) \<Rightarrow> string \<Rightarrow> 64 word \<Rightarrow> 64 word \<Rightarrow> bool option" where
  "blocks_abandoned check_path zk_path number bound =
     (if number \<le> bound then
        (if check_path (block_path zk_path number) \<noteq> ABANDONED then Some False
         else blocks_abandoned check_path zk_path (number + 1) bound)
      else Some True)"

declare blocks_abandoned.simps [code]

definition canMergeParts :: "'d Collaborators \<Rightarrow> 'd Storage \<Rightarrow> DataPart \<Rightarrow> DataPart \<Rightarrow> bool option" where
  "canMergeParts ext st l r =
     (if name l \<in> currently_merging st \<or> name r \<in> currently_merging st then Some False
      else blocks_abandoned (lock_check ext (zookeeper st)) (zookeeper_path st) (right l + 1) (left r - 1))"

subsection \<open>pullLogsToQueue\<close>

text \<open>
  Modelled from the spec: \<^verbatim>\<open>parse<UInt64>\<close> (DB/IO, not part of this file) reads the
  text of a log pointer, a "decimal integer": the value of its leading decimal digits,
  in 64-bit unsigned arithmetic.
\<close>

fun digits_value :: "nat \<Rightarrow> string \<Rightarrow> nat" where
  "digits_value acc [] = acc"
| "digits_value acc (c # cs) =
     (if CHR ''0'' \<le> c \<and> c \<le> CHR ''9'' then digits_value (acc * 10 + (of_char c - 48)) cs else acc)"

definition parse_UInt64 :: "string \<Rightarrow> 64 word" where
  "parse_UInt64 s = of_nat (digits_value 0 s)"

text \<open>
  Modelled from the spec: the taggers are declared in the header. "On every insertion
  into the Queue, if the entry is a MERGE_PARTS, each name in parts_to_merge is added to
  currently_merging"; "On insertion from a worker claiming it, its new_part_name is added
  to future_parts"; "Tags release their set membership when cleared".
\<close>

definition tagPartsAsCurrentlyMerging :: "LogEntry \<Rightarrow> 'd Storage \<Rightarrow> 'd Storage" where
  "tagPartsAsCurrentlyMerging entry st =
     (if type entry = Some MERGE_PARTS
      then st\<lparr>currently_merging := currently_merging st \<union> set (parts_to_merge entry)\<rparr> else st)"

definition tagPartAsFuture :: "LogEntry \<Rightarrow> 'd Storage \<Rightarrow> 'd Storage" where
  "tagPartAsFuture entry st = st\<lparr>future_parts := insert (new_part_name entry) (future_parts st)\<rparr>"

definition release_future_part :: "LogEntry \<Rightarrow> 'd Storage \<Rightarrow> 'd Storage" where
  "release_future_part entry st = st\<lparr>future_parts := future_parts st - {new_part_name entry}\<rparr>"

definition release_currently_merging :: "LogEntry \<Rightarrow> 'd Storage \<Rightarrow> 'd Storage" where
  "release_currently_merging entry st =
     (if type entry = Some MERGE_PARTS
      then st\<lparr>currently_merging := currently_merging st - set (parts_to_merge entry)\<rparr> else st)"

text \<open>The local struct \<^verbatim>\<open>LogIterator\<close>; \<open>less_LogIterator\<close> is its \<^verbatim>\<open>operator<\<close>.\<close>

record LogIterator =
  replica :: string
  index :: "64 word"
  timestamp :: int
  entry_str :: string

definition less_LogIterator :: "LogIterator \<Rightarrow> LogIterator \<Rightarrow> bool" where
  "less_LogIterator lhs rhs = (timestamp lhs < timestamp rhs)"

definition readEntry :: "ZooKeeper \<Rightarrow> string \<Rightarrow> LogIterator \<Rightarrow> LogIterator option" where
  "readEntry z zk_path it =
     (case tryGet z (zk_path @ ''/replicas/'' @ replica it @ ''/log/log-'' @ pad10 (toString (index it))) of
        None \<Rightarrow> None
      | Some n \<Rightarrow> Some (it\<lparr>entry_str := node_data n, timestamp := node_czxid n\<rparr>))"

text \<open>
  \<^verbatim>\<open>std::priority_queue<LogIterator>\<close> with the default comparison \<^verbatim>\<open>std::less\<close>:
  \<open>top\<close> is an element than which no element is greater under \<^verbatim>\<open>operator<\<close>. The
  queue is modelled by the list of its elements in the order they were pushed; among
  several greatest elements the model takes the one pushed first (the standard leaves
  that choice open).
\<close>

fun greatest_from :: "LogIterator \<Rightarrow> LogIterator list \<Rightarrow> LogIterator" where
  "greatest_from best [] = best"
| "greatest_from best (x # xs) = greatest_from (if less_LogIterator best x then x else best) xs"

definition top :: "LogIterator list \<Rightarrow> LogIterator" where
  "top pq = (case pq of x # xs \<Rightarrow> greatest_from x xs)"

definition pop :: "LogIterator list \<Rightarrow> LogIterator list" where
  "pop pq = remove1 (top pq) pq"

definition push :: "LogIterator \<Rightarrow> LogIterator list \<Rightarrow> LogIterator list" where
  "push x pq = pq @ [x]"

text \<open>The name of a node: \<^verbatim>\<open>path.substr(path.find_last_of('/') + 1)\<close>.\<close>

definition node_name :: "string \<Rightarrow> string" where
  "node_name p = rev (takeWhile (\<lambda>c. c \<noteq> CHR ''/'') (rev p))"

text \<open>
  The body of the first loop of \<^verbatim>\<open>pullLogsToQueue\<close>, for one replica: the pointer
  into its log, created at the first entry of the log if there is none yet.
\<close>

definition log_pointer :: "'d Storage \<Rightarrow> string \<Rightarrow> 'd Storage \<times> (error + 64 word)" where
  "log_pointer st r =
     (case tryGet (zookeeper st) (replica_path st @ ''/log_pointers/'' @ r) of
        Some n \<Rightarrow> (st, Inr (parse_UInt64 (node_data n)))
      | None \<Rightarrow>
          (case getChildren (zookeeper st) (zookeeper_path st @ ''/replicas/'' @ r @ ''/log'') of
             Inl err \<Rightarrow> (st, Inl err)
           | Inr entries \<Rightarrow>
               (let i = (if entries = [] then 0 else parse_UInt64 (drop (length ''log-'') (hd (sort entries))))
                in case create (zookeeper st) (replica_path st @ ''/log_pointers/'' @ r) (toString i) Persistent of
                     Inl err \<Rightarrow> (st, Inl err)
                   | Inr (z', p) \<Rightarrow> (st\<lparr>zookeeper := z'\<rparr>, Inr i))))"

fun first_entries :: "'d Storage \<Rightarrow> LogIterator list \<Rightarrow> string list \<Rightarrow> 'd Storage \<times> (error + LogIterator list)" where
  "first_entries st priority_queue [] = (st, Inr priority_queue)"
| "first_entries st priority_queue (r # replicas) =
     (case log_pointer st r of
        (st', Inl err) \<Rightarrow> (st', Inl err)
      | (st', Inr i) \<Rightarrow>
          (case readEntry (zookeeper st') (zookeeper_path st')
                  \<lparr>replica = r, index = i, timestamp = 0, entry_str = []\<rparr> of
             Some iterator \<Rightarrow> first_entries st' (push iterator priority_queue) replicas
           | None \<Rightarrow> first_entries st' priority_queue replicas))"

text \<open>
  The body of the \<^verbatim>\<open>while\<close> loop for the entry taken from the priority queue, up to
  \<^verbatim>\<open>queue.push_back(entry)\<close>: the entry is parsed, one \<open>multi\<close> creates the queue node
  and sets the log pointer, and the entry enters the queue in memory under the name of
  the created node. An exception leaves through the loop and the function.
\<close>

definition enqueue_entry :: "'d Collaborators \<Rightarrow> 'd Storage \<Rightarrow> LogIterator \<Rightarrow> 'd Storage \<times> (error + unit)" where
  "enqueue_entry ext st iterator =
     (case parse (field_end ext) (entry_str iterator) of
        Inl err \<Rightarrow> (st, Inl err)
      | Inr entry \<Rightarrow>
          (case multi (zookeeper st)
                  [Create (replica_path st @ ''/queue/queue-'') (entry_str iterator) PersistentSequential,
                   SetData (replica_path st @ ''/log_pointers/'' @ replica iterator)
                     (toString (index iterator + 1))] of
             Inl err \<Rightarrow> (st, Inl err)
           | Inr (z', results) \<Rightarrow>
               (case results of
                  CreateResult path_created # rs \<Rightarrow>
                    (let entry' = entry\<lparr>znode_name := node_name path_created\<rparr>;
                         st' = tagPartsAsCurrentlyMerging entry' (st\<lparr>zookeeper := z'\<rparr>)
                     in (st'\<lparr>queue := queue st' @ [entry']\<rparr>, Inr ()))
                | _ \<Rightarrow> (st\<lparr>zookeeper := z'\<rparr>, Inl BAD_CAST))))"

text \<open>
  The \<^verbatim>\<open>while (!priority_queue.empty())\<close> loop. Every round reads a further node of a
  log; nothing in the function bounds their number, so the loop is a partial function.
\<close>

partial_function (option) pull_entries ::
    "'d Collaborators \<Rightarrow> 'd Storage \<Rightarrow> LogIterator list \<Rightarrow> nat \<Rightarrow> ('d Storage \<times> (error + nat)) option" where
  "pull_entries ext st priority_queue count =
     (if priority_queue = [] then Some (st, Inr count)
      else
        (case enqueue_entry ext st (top priority_queue) of
           (st', Inl err) \<Rightarrow> Some (st', Inl err)
         | (st', Inr u) \<Rightarrow>
             (case readEntry (zookeeper st') (zookeeper_path st')
                     ((top priority_queue)\<lparr>index := index (top priority_queue) + 1\<rparr>) of
                Some iterator \<Rightarrow> pull_entries ext st' (push iterator (pop priority_queue)) (count + 1)
              | None \<Rightarrow> pull_entries ext st' (pop priority_queue) (count + 1))))"

declare pull_entries.simps [code]

definition pullLogsToQueue :: "'d Collaborators \<Rightarrow> 'd Storage \<Rightarrow> ('d Storage \<times> (error + unit)) option" where
  "pullLogsToQueue ext st =
     (case getChildren (zookeeper st) (zookeeper_path st @ ''/replicas'') of
        Inl err \<Rightarrow> Some (st, Inl err)
      | Inr replicas \<Rightarrow>
          (case first_entries st [] replicas of
             (st1, Inl err) \<Rightarrow> Some (st1, Inl err)
           | (st1, Inr priority_queue) \<Rightarrow>
               (case pull_entries ext st1 priority_queue 0 of
                  None \<Rightarrow> None
                | Some (st2, Inl err) \<Rightarrow> Some (st2, Inl err)
                | Some (st2, Inr count) \<Rightarrow>
                    Some (if 0 < count
                          then LOG PRIO_DEBUG (''Pulled '' @ digits count @ '' entries to queue'') st2
                          else st2, Inr ()))))"

subsection \<open>executeLogEntry\<close>

text \<open>
  The test of the loop of \<^verbatim>\<open>findActiveReplicaHavingPart\<close>: the replica has the part
  and is active.
\<close>

definition has_part_and_is_active :: "'d Storage \<Rightarrow> string \<Rightarrow> string \<Rightarrow> bool" where
  "has_part_and_is_active st part_name r =
     (exists (zookeeper st) (zookeeper_path st @ ''/replicas/'' @ r @ ''/parts/'' @ part_name) \<and>
      exists (zookeeper st) (zookeeper_path st @ ''/replicas/'' @ r @ ''/is_active''))"

text \<open>
  \<^verbatim>\<open>findActiveReplicaHavingPart\<close>: the first replica, in the shuffled order, that has
  the part and is active.
\<close>

definition findActiveReplicaHavingPart :: "'d Collaborators \<Rightarrow> 'd Storage \<Rightarrow> string \<Rightarrow> error + string" where
  "findActiveReplicaHavingPart ext st part_name =
     bind_err (getChildren (zookeeper st) (zookeeper_path st @ ''/replicas'')) (\<lambda>replicas.
       case find (has_part_and_is_active st part_name) (random_shuffle ext replicas) of
         Some r \<Rightarrow> Inr r
       | None \<Rightarrow> Inl NO_REPLICA_HAS_PART)"

text \<open>
  Modelled from the spec: \<^verbatim>\<open>readText\<close> of an \<^verbatim>\<open>int\<close> (DB/IO) reads the port of the
  host text \<open>host: <host>\<newline>port: <port>\<newline>\<close>: an optional minus sign and the
  decimal digits that follow. The number is read into \<^verbatim>\<open>int port\<close>, of 32 bits: of a
  longer number the low 32 bits are kept (\<open>sint\<close> reads the port as the signed number).
\<close>

definition readIntText :: "string \<Rightarrow> 32 word \<times> string" where
  "readIntText buf =
     (case buf of
        c # cs \<Rightarrow>
          if c = CHR ''-''
          then (- of_nat (digits_value 0 cs), dropWhile (\<lambda>c. CHR ''0'' \<le> c \<and> c \<le> CHR ''9'') cs)
          else (of_nat (digits_value 0 buf), dropWhile (\<lambda>c. CHR ''0'' \<le> c \<and> c \<le> CHR ''9'') buf)
      | [] \<Rightarrow> (0, []))"

definition read_host_port :: "(char \<Rightarrow> bool) \<Rightarrow> string \<Rightarrow> error + (string \<times> 32 word)" where
  "read_host_port stop buf =
     bind_err (assertString ''host: '' buf) (\<lambda>b1.
     case readString stop b1 of (host, b2) \<Rightarrow>
     bind_err (assertString ''\<newline>port: '' b2) (\<lambda>b3.
     case readIntText b3 of (port, b4) \<Rightarrow>
     bind_err (assertString ''\<newline>'' b4) (\<lambda>b5.
     bind_err (assertEOF b5) (\<lambda>_. Inr (host, port)))))"

text \<open>The operations removing the nodes of the parts a new part replaces.\<close>

definition remove_part_ops :: "string \<Rightarrow> DataPart list \<Rightarrow> Op list" where
  "remove_part_ops rp parts =
     concat (map (\<lambda>part. [Remove (rp @ ''/parts/'' @ name part @ ''/checksums''),
                            Remove (rp @ ''/parts/'' @ name part)]) parts)"

definition create_part_ops :: "string \<Rightarrow> DataPart \<Rightarrow> Op list" where
  "create_part_ops rp part =
     [Create (rp @ ''/parts/'' @ name part) [] Persistent,
      Create (rp @ ''/parts/'' @ name part @ ''/checksums'') (checksums part) Persistent]"

fun log_obsolete :: "string \<Rightarrow> DataPart list \<Rightarrow> 'd Storage \<Rightarrow> 'd Storage" where
  "log_obsolete part_name [] st = st"
| "log_obsolete part_name (removed_part # parts) st =
     log_obsolete part_name parts
       (LOG PRIO_DEBUG (''Part '' @ name removed_part @ '' is rendered obsolete by fetching part '' @ part_name) st)"

text \<open>
  \<^verbatim>\<open>fetchPart\<close>. The structure lock it holds and the profile events it counts are not
  modelled.
\<close>

definition fetchPart :: "'d Collaborators \<Rightarrow> 'd Storage \<Rightarrow> string \<Rightarrow> string \<Rightarrow> 'd Storage \<times> (error + unit)" where
  "fetchPart ext st0 part_name r =
     (let st = LOG PRIO_DEBUG (''Fetching part '' @ part_name @ '' from '' @ r) st0 in
      case bind_err (get (zookeeper st) (zookeeper_path st @ ''/replicas/'' @ r @ ''/host''))
             (read_host_port (field_end ext)) of
        Inl err \<Rightarrow> (st, Inl err)
      | Inr (host, port) \<Rightarrow>
          (case fetcher_fetchPart ext part_name (zookeeper_path st @ ''/replicas/'' @ r) host port of
             Inl err \<Rightarrow> (st, Inl err)
           | Inr fetched \<Rightarrow>
               (case renameTempPartAndReplace ext (data st) fetched of
                  (d', part, removed_parts) \<Rightarrow>
                    (let st1 = log_obsolete part_name removed_parts (st\<lparr>data := d'\<rparr>) in
                     case multi (zookeeper st1)
                            (create_part_ops (replica_path st1) part @
                             remove_part_ops (replica_path st1) removed_parts) of
                       Inl err \<Rightarrow> (st1, Inl err)
                     | Inr (z', rs) \<Rightarrow> (LOG PRIO_DEBUG ''Fetched part'' (st1\<lparr>zookeeper := z'\<rparr>), Inr ())))))"

text \<open>
  The handler of a failed fetch in \<^verbatim>\<open>executeLogEntry\<close>. Its first loop finds the first
  \<open>MERGE_PARTS\<close> entry of the queue that has the part among its \<open>parts_to_merge\<close>:
  \<open>merge_entry\<close> is its position.
\<close>

fun merge_entry :: "string \<Rightarrow> LogEntry list \<Rightarrow> nat option" where
  "merge_entry part [] = None"
| "merge_entry part (it # rest) =
     (if type it = Some MERGE_PARTS \<and> part \<in> set (parts_to_merge it) then Some 0
      else map_option Suc (merge_entry part rest))"

text \<open>
  Its second loop walks from the head of the queue to \<open>merge_entry\<close>, \<open>k\<close> steps away,
  and splices every entry that produces one of \<open>parts_for_merge\<close> to the end of the
  queue: \<open>passed\<close> are the entries left of the iterator \<open>it\<close>, the last argument the
  entries from \<open>it\<close> to the end.
\<close>

fun move_to_end :: "string set \<Rightarrow> nat \<Rightarrow> LogEntry list \<Rightarrow> LogEntry list \<Rightarrow> LogEntry list" where
  "move_to_end parts_for_merge k passed [] = passed"
| "move_to_end parts_for_merge 0 passed (it0 # rest) = passed @ it0 # rest"
| "move_to_end parts_for_merge (Suc k) passed (it0 # rest) =
     (if (type it0 = Some MERGE_PARTS \<or> type it0 = Some GET_PART) \<and> new_part_name it0 \<in> parts_for_merge
      then move_to_end parts_for_merge k passed (rest @ [it0])
      else move_to_end parts_for_merge k (passed @ [it0]) rest)"

definition fetch_failed :: "string \<Rightarrow> LogEntry list \<Rightarrow> LogEntry list" where
  "fetch_failed part q =
     (case merge_entry part q of
        None \<Rightarrow> q
      | Some k \<Rightarrow>
          (let parts_for_merge = set (parts_to_merge (q ! k))
           in if parts_for_merge \<noteq> {} then move_to_end parts_for_merge k [] q else q))"

text \<open>The block \<^verbatim>\<open>if (do_fetch) { try ... catch (...) ... throw; }\<close>.\<close>

definition fetch :: "'d Collaborators \<Rightarrow> 'd Storage \<Rightarrow> LogEntry \<Rightarrow> 'd Storage \<times> (error + unit)" where
  "fetch ext st entry =
     (case findActiveReplicaHavingPart ext st (new_part_name entry) of
        Inl err \<Rightarrow> (st, Inl err)
      | Inr r \<Rightarrow> fetchPart ext st (new_part_name entry) r)"

definition fetch_or_requeue :: "'d Collaborators \<Rightarrow> 'd Storage \<Rightarrow> LogEntry \<Rightarrow> 'd Storage \<times> (error + unit)" where
  "fetch_or_requeue ext st entry =
     (case fetch ext st entry of
        (st', Inr u) \<Rightarrow> (st', Inr u)
      | (st', Inl err) \<Rightarrow> (st'\<lparr>queue := fetch_failed (new_part_name entry) (queue st')\<rparr>, Inl err))"

text \<open>The loop over \<^verbatim>\<open>parts_to_merge\<close>: the local parts of these names, if all are there.\<close>

fun parts_of_merge :: "'d Collaborators \<Rightarrow> 'd Storage \<Rightarrow> LogEntry \<Rightarrow> DataPart list \<Rightarrow> string list
    \<Rightarrow> 'd Storage \<times> DataPart list option" where
  "parts_of_merge ext st entry parts [] = (st, Some parts)"
| "parts_of_merge ext st entry parts (n # names) =
     (case getContainingPart ext (data st) n of
        None \<Rightarrow> (st, None)
      | Some part \<Rightarrow>
          if name part \<noteq> n
          then (LOG PRIO_ERROR (''Log and parts set look inconsistent: '' @ n @ '' is covered by '' @ name part @
                                '' but should be merged into '' @ new_part_name entry) st, None)
          else parts_of_merge ext st entry (parts @ [part]) names)"

definition merge_locally :: "'d Collaborators \<Rightarrow> 'd Storage \<Rightarrow> LogEntry \<Rightarrow> DataPart list \<Rightarrow> 'd Storage \<times> (error + unit)" where
  "merge_locally ext st entry parts =
     (case mergeParts ext (data st) parts (new_part_name entry) of
        Inl err \<Rightarrow> (st, Inl err)
      | Inr (d', part) \<Rightarrow>
          (case multi (zookeeper st)
                  (create_part_ops (replica_path st) part @ remove_part_ops (replica_path st) parts) of
             Inl err \<Rightarrow> (st\<lparr>data := d'\<rparr>, Inl err)
           | Inr (z', rs) \<Rightarrow> (st\<lparr>zookeeper := z', data := clearOldParts ext d'\<rparr>, Inr ())))"

text \<open>
  The test at the head of \<^verbatim>\<open>executeLogEntry\<close>: a local part contains the new part and
  is registered in the coordinator.
\<close>

definition already_have :: "'d Collaborators \<Rightarrow> 'd Storage \<Rightarrow> LogEntry \<Rightarrow> bool" where
  "already_have ext st entry =
     ((type entry = Some GET_PART \<or> type entry = Some MERGE_PARTS) \<and>
      (case getContainingPart ext (data st) (new_part_name entry) of
         None \<Rightarrow> False
       | Some containing_part \<Rightarrow>
           exists (zookeeper st) (replica_path st @ ''/parts/'' @ name containing_part)))"

definition executeLogEntry :: "'d Collaborators \<Rightarrow> 'd Storage \<Rightarrow> LogEntry \<Rightarrow> 'd Storage \<times> (error + unit)" where
  "executeLogEntry ext st entry =
     (if already_have ext st entry then
        (if \<not> (type entry = Some GET_PART \<and> source_replica entry = replica_name st)
         then LOG PRIO_DEBUG (''Skipping action for part '' @ new_part_name entry @ '' - part already exists'') st
         else st, Inr ())
      else
        (let st1 = (if type entry = Some GET_PART \<and> source_replica entry = replica_name st
                    then LOG PRIO_ERROR (''Part '' @ new_part_name entry @
                                         '' from own log doesn't exist. This is a bug.'') st
                    else st)
         in if type entry = Some GET_PART then fetch_or_requeue ext st1 entry
            else if type entry = Some MERGE_PARTS then
              (case parts_of_merge ext st1 entry [] (parts_to_merge entry) of
                 (st2, None) \<Rightarrow>
                   fetch_or_requeue ext
                     (LOG PRIO_DEBUG (''Don't have all parts for merge '' @ new_part_name entry @
                                      ''; will try to fetch it instead'') st2) entry
               | (st2, Some parts) \<Rightarrow> merge_locally ext st2 entry parts)
            else (st1, Inl UNEXPECTED_LOG_ENTRY_TYPE)))"

subsection \<open>queueThread\<close>

text \<open>
  The scan of the queue for the first entry to execute: the entries \<open>passed\<close> over, the
  entry and the entries after it.
\<close>

fun first_to_execute :: "string set \<Rightarrow> LogEntry list \<Rightarrow> LogEntry list
    \<Rightarrow> (LogEntry list \<times> LogEntry \<times> LogEntry list) option" where
  "first_to_execute fp passed [] = None"
| "first_to_execute fp passed (it # rest) =
     (if shouldExecuteLogEntry fp it then Some (passed, it, rest)
      else first_to_execute fp (passed @ [it]) rest)"

text \<open>
  One round of the loop of \<^verbatim>\<open>queueThread\<close>, without the sleeps. When the entry goes
  out of scope its tags are released; after a failure the copy put back into the queue
  keeps the tag of the parts being merged. Of the texts logged, the name of the return
  code is left out, and the text of an exception is the empty string.
\<close>

definition queueThread_round :: "'d Collaborators \<Rightarrow> 'd Storage \<Rightarrow> 'd Storage" where
  "queueThread_round ext st =
     (case first_to_execute (future_parts st) [] (queue st) of
        None \<Rightarrow> st
      | Some (passed, entry, rest) \<Rightarrow>
          (case executeLogEntry ext ((tagPartAsFuture entry st)\<lparr>queue := passed @ rest\<rparr>) entry of
             (st1, Inr u) \<Rightarrow>
               (case tryRemove (zookeeper st1) (replica_path st1 @ ''/queue/'' @ znode_name entry) of
                  (z', code) \<Rightarrow>
                    release_future_part entry (release_currently_merging entry
                      ((if code \<noteq> Ok
                        then LOG PRIO_ERROR (''Couldn't remove '' @ replica_path st1 @ ''/queue/'' @ znode_name entry @
                                             ''. There must be a bug somewhere. Ignoring it.'')
                        else (\<lambda>s. s)) (st1\<lparr>zookeeper := z'\<rparr>))))
           | (st1, Inl err) \<Rightarrow>
               (let st2 = LOG (if err = NO_REPLICA_HAS_PART then PRIO_INFO else PRIO_ERROR) [] st1
                in if shutdown_called st2
                   then release_future_part entry (release_currently_merging entry st2)
                   else release_future_part entry (st2\<lparr>queue := queue st2 @ [entry]\<rparr>))))"

subsection \<open>createTable and checkTableStructure\<close>

text \<open>
  Modelled from the spec: \<^verbatim>\<open>writeBackQuotedString\<close> and \<^verbatim>\<open>readBackQuotedString\<close> are
  in DB/IO, not in StorageReplicatedMergeTree.cpp, and of their rules the spec says only
  "Column names are back-quoted with the engine's quoting rules. Bit-for-bit equality is
  required on reopen". The two helpers are parameters: \<open>writeBackQuotedString\<close> gives
  the text written for a name; \<open>readBackQuotedString\<close> takes a quoted name from the
  front of the buffer and returns the name with the unread rest of the buffer, or
  throws.
\<close>

record Quoting =
  writeBackQuotedString :: "string \<Rightarrow> string"
  readBackQuotedString :: "string \<Rightarrow> error + (string \<times> string)"

text \<open>
  What \<^verbatim>\<open>createTable\<close> and \<^verbatim>\<open>checkTableStructure\<close> read of the table: the settings
  of \<^verbatim>\<open>MergeTreeData\<close>, with the two expressions as \<^verbatim>\<open>formattedAST\<close> prints them
  (the empty string for no expression), and the list of the columns, each with its name
  and the name of its type. \<open>mode\<close> is the mode cast to \<^verbatim>\<open>int\<close>, a signed number of
  32 bits.
\<close>

record TableDefinition =
  date_column_name :: string
  sampling_expression :: string
  index_granularity :: "64 word"
  mode :: "32 word"
  sign_column :: string
  primary_expr_ast :: string
  getColumnsList :: "(string \<times> string) list"

definition toString_int :: "int \<Rightarrow> string" where
  "toString_int i = (if i < 0 then ''-'' @ digits (nat (- i)) else digits (nat i))"

text \<open>The text \<^verbatim>\<open>createTable\<close> writes to \<open>/metadata\<close>, up to the list of the columns.\<close>

definition metadata_head :: "TableDefinition \<Rightarrow> string" where
  "metadata_head d =
     ''metadata format version: 1'' @ ''\<newline>'' @
     ''date column: '' @ date_column_name d @ ''\<newline>'' @
     ''sampling expression: '' @ sampling_expression d @ ''\<newline>'' @
     ''index granularity: '' @ toString (index_granularity d) @ ''\<newline>'' @
     ''mode: '' @ toString_int (sint (mode d)) @ ''\<newline>'' @
     ''sign column: '' @ sign_column d @ ''\<newline>'' @
     ''primary key: '' @ primary_expr_ast d @ ''\<newline>'' @
     ''columns:'' @ ''\<newline>''"

definition metadata :: "Quoting \<Rightarrow> TableDefinition \<Rightarrow> string" where
  "metadata q d =
     metadata_head d @
     concat (map (\<lambda>it. writeBackQuotedString q (fst it) @ '' '' @ snd it @ ''\<newline>'') (getColumnsList d))"


text \<open>The loop of \<^verbatim>\<open>checkTableStructure\<close> over the columns.\<close>

fun check_columns :: "Quoting \<Rightarrow> (string \<times> string) list \<Rightarrow> string \<Rightarrow> error + string" where
  "check_columns q [] buf = Inr buf"
| "check_columns q (it # columns) buf =
     bind_err (readBackQuotedString q buf) (\<lambda>(n, b1).
       if n \<noteq> fst it then Inl UNKNOWN_IDENTIFIER
       else
         bind_err (assertString '' '' b1) (\<lambda>b2.
         bind_err (assertString (snd it) b2) (\<lambda>b3.
         bind_err (assertString ''\<newline>'' b3) (\<lambda>b4. check_columns q columns b4))))"



section \<open>A small installation for the examples\<close>

text \<open>
  The examples below run the functions on a table \<open>/t\<close> with this replica \<open>r1\<close>.
  The part store of the examples is the list of the local parts and the list of the
  detached directories; a part contains the part of the same name only; a fetched part
  covers no other part; merging is not available; the fetcher returns a part of the name
  it was asked for; the shuffle keeps the order; a lock node is abandoned when its data
  is empty.
\<close>

definition example_collaborators :: "(DataPart list \<times> string list) Collaborators" where
  "example_collaborators =
     \<lparr>field_end = line_feed,
      getDataParts = fst,
      getContainingPart = (\<lambda>d n. find (\<lambda>p. name p = n) (fst d)),
      renameAndDetachPart = (\<lambda>d p prefix. (filter (\<lambda>q. name q \<noteq> name p) (fst d), snd d @ [prefix @ name p])),
      mergeParts = (\<lambda>d ps n. Inl (ExternalFailure ''cannot merge'')),
      clearOldParts = (\<lambda>d. d),
      renameTempPartAndReplace = (\<lambda>d p. ((fst d @ [p], snd d), p, [])),
      fetcher_fetchPart = (\<lambda>n rp h port. Inr \<lparr>name = n, left = 0, right = 0, checksums = ''checksums of '' @ n\<rparr>),
      random_shuffle = (\<lambda>replicas. replicas),
      lock_check = (\<lambda>z p. case tryGet z p of
                              None \<Rightarrow> OTHER_STATE
                            | Some n \<Rightarrow> if node_data n = [] then ABANDONED else LIVE)\<rparr>"

definition example_part :: "string \<Rightarrow> 64 word \<Rightarrow> 64 word \<Rightarrow> DataPart" where
  "example_part n l r = \<lparr>name = n, left = l, right = r, checksums = ''checksums of '' @ n\<rparr>"

definition example_node :: "string \<Rightarrow> int \<Rightarrow> znode" where
  "example_node d zx = \<lparr>node_data = d, node_czxid = zx, node_cversion = 0\<rparr>"

definition example_storage :: "(string \<times> znode) list \<Rightarrow> DataPart list \<Rightarrow> LogEntry list \<Rightarrow> (DataPart list \<times> string list) Storage" where
  "example_storage ns parts q =
     \<lparr>zookeeper_path = ''/t'', replica_path = ''/t/replicas/r1'', replica_name = ''r1'',
      zookeeper = \<lparr>nodes = ns, last_zxid = 100\<rparr>,
      data = (parts, []), queue = q, future_parts = {}, currently_merging = {},
      log = [], shutdown_called = False\<rparr>"

text \<open>
  The coordinator's nodes when the replicas \<open>r1\<close> and \<open>r2\<close> have one entry each in their
  logs, the entry of \<open>r1\<close> created in transaction 20 and the entry of \<open>r2\<close> later, in
  transaction 30, and this replica \<open>r1\<close> has pulled neither.
\<close>

definition two_logs :: "(string \<times> znode) list" where
  "two_logs =
     [(''/t'', example_node [] 1),
      (''/t/replicas'', example_node [] 2),
      (''/t/replicas/r1'', example_node [] 3),
      (''/t/replicas/r1/log'', example_node [] 4),
      (''/t/replicas/r1/log_pointers'', example_node [] 5),
      (''/t/replicas/r1/queue'', example_node [] 6),
      (''/t/replicas/r2'', example_node [] 7),
      (''/t/replicas/r2/log'', example_node [] 8),
      (''/t/replicas/r1/log_pointers/r1'', example_node ''0'' 9),
      (''/t/replicas/r1/log_pointers/r2'', example_node ''0'' 10),
      (''/t/replicas/r1/log/log-0000000000'',
         example_node ''format version: 1\<newline>source replica: r1\<newline>get\<newline>p1\<newline>'' 20),
      (''/t/replicas/r2/log/log-0000000000'',
         example_node ''format version: 1\<newline>source replica: r2\<newline>get\<newline>p2\<newline>'' 30)]"

definition first_of_r2 :: LogIterator where
  "first_of_r2 = \<lparr>replica = ''r2'', index = 0, timestamp = 30,
     entry_str = ''format version: 1\<newline>source replica: r2\<newline>get\<newline>p2\<newline>''\<rparr>"

text \<open>
  The coordinator's nodes when the replica \<open>r2\<close> is active and has the part \<open>p2\<close>,
  and an entry of the own log of \<open>r1\<close> that asks for \<open>p2\<close>.
\<close>

definition r2_has_p2 :: "(string \<times> znode) list" where
  "r2_has_p2 =
     [(''/t'', example_node [] 1),
      (''/t/replicas'', example_node [] 2),
      (''/t/replicas/r1'', example_node [] 3),
      (''/t/replicas/r1/parts'', example_node [] 4),
      (''/t/replicas/r1/queue'', example_node [] 5),
      (''/t/replicas/r2'', example_node [] 6),
      (''/t/replicas/r2/host'', example_node ''host: example.net\<newline>port: 9009\<newline>'' 7),
      (''/t/replicas/r2/is_active'', example_node [] 8),
      (''/t/replicas/r2/parts'', example_node [] 9),
      (''/t/replicas/r2/parts/p2'', example_node [] 10),
      (''/t/replicas/r2/parts/p2/checksums'', example_node ''checksums of p2'' 11)]"

definition own_get_p2 :: LogEntry where
  "own_get_p2 = \<lparr>znode_name = ''queue-0000000000'', type = Some GET_PART, source_replica = ''r1'',
                  new_part_name = ''p2'', parts_to_merge = []\<rparr>"

text \<open>Entries for the examples of the queue.\<close>

definition get_part :: "string \<Rightarrow> string \<Rightarrow> LogEntry" where
  "get_part znode part =
     \<lparr>znode_name = znode, type = Some GET_PART, source_replica = ''r2'',
      new_part_name = part, parts_to_merge = []\<rparr>"

definition merge_parts :: "string \<Rightarrow> string list \<Rightarrow> string \<Rightarrow> LogEntry" where
  "merge_parts znode parts part =
     \<lparr>znode_name = znode, type = Some MERGE_PARTS, source_replica = ''r2'',
      new_part_name = part, parts_to_merge = parts\<rparr>"







section \<open>Properties of the log entry codec\<close>

lemma readString_line:
  assumes "\<forall>c \<in> set s. \<not> stop c" and "stop c0"
  shows "readString stop (s @ c0 # rest) = (s, c0 # rest)"
  using assms by (simp add: readString_def takeWhile_tail dropWhile_append3)

lemma assertString_append: "assertString s (s @ rest) = Inr rest"
  by (simp add: assertString_def)

lemma assertString_nl: "assertString ''\<newline>'' (CHR 0x0A # rest) = Inr rest"
  by (simp add: assertString_def)

lemma merge_lines_parts:
  assumes "stop CHR 0x0A" and "\<forall>p \<in> set ps. \<forall>c \<in> set p. \<not> stop c" and "''into'' \<notin> set ps"
    and "\<forall>c \<in> set ''into''. \<not> stop c"
  shows "merge_lines stop acc (concat (map (\<lambda>s. s @ ''\<newline>'') ps) @ ''into\<newline>'' @ rest)
          = Inr (acc @ ps, rest)"
  using assms
proof (induction ps arbitrary: acc)
  case Nil
  have "readString stop (''into'' @ CHR 0x0A # rest) = (''into'', CHR 0x0A # rest)"
    using Nil.prems(1,4) by (intro readString_line) 
  then show ?case
    by (subst merge_lines.simps) (simp add: assertString_nl)
next
  case (Cons p ps)
  have "readString stop (p @ CHR 0x0A # (concat (map (\<lambda>s. s @ ''\<newline>'') ps) @ ''into\<newline>'' @ rest))
         = (p, CHR 0x0A # (concat (map (\<lambda>s. s @ ''\<newline>'') ps) @ ''into\<newline>'' @ rest))"
    using Cons.prems by (intro readString_line) auto
  moreover have "p \<noteq> ''into''" using Cons.prems by auto
  moreover have "merge_lines stop (acc @ [p]) (concat (map (\<lambda>s. s @ ''\<newline>'') ps) @ ''into\<newline>'' @ rest)
      = Inr ((acc @ [p]) @ ps, rest)"
    using Cons.prems by (intro Cons.IH) auto
  ultimately show ?case
    by (subst merge_lines.simps) (simp add: assertString_nl)
qed

lemma readText_merge_text:
  assumes stop: "stop CHR 0x0A" "plain stop ''merge''" "plain stop ''into''"
    and src: "plain stop src" and npn: "plain stop npn"
    and ps: "\<forall>p \<in> set ps. plain stop p" "''into'' \<notin> set ps"
  shows "readText stop e0
           (''format version: 1\<newline>'' @ ''source replica: '' @ src @ ''\<newline>'' @
            (''merge\<newline>'' @ concat (map (\<lambda>s. s @ ''\<newline>'') ps) @ ''into\<newline>'' @ npn) @ ''\<newline>'' @ rest)
         = Inr (e0\<lparr>type := Some MERGE_PARTS, source_replica := src, new_part_name := npn,
                   parts_to_merge := parts_to_merge e0 @ ps\<rparr>, rest)"
proof -
  have r1: "readString stop (src @ CHR 0x0A # t) = (src, CHR 0x0A # t)" for t
    using src stop(1) by (intro readString_line) (auto simp: plain_def)
  have r2: "readString stop (''merge'' @ CHR 0x0A # t) = (''merge'', CHR 0x0A # t)" for t
    using stop by (intro readString_line) (auto simp: plain_def)
  have r3: "merge_lines stop acc (concat (map (\<lambda>s. s @ ''\<newline>'') ps) @ ''into\<newline>'' @ t) = Inr (acc @ ps, t)" for acc t
    using stop ps by (intro merge_lines_parts) (auto simp: plain_def)
  have r4: "readString stop (npn @ CHR 0x0A # t) = (npn, CHR 0x0A # t)" for t
    using npn stop(1) by (intro readString_line) (auto simp: plain_def)
  have a1: "assertString ''format version: 1\<newline>'' (''format version: 1\<newline>'' @ t) = Inr t" for t
    by (rule assertString_append)
  have a2: "assertString ''source replica: '' (''source replica: '' @ t) = Inr t" for t
    by (rule assertString_append)
  show ?thesis
    unfolding readText_def
    apply (subst a1)
    apply (simp only: bind_err_def sum.case)
    apply (subst a2)
    apply (simp only: sum.case append_Cons append_Nil append_assoc)
    apply (subst r1)
    apply (simp only: prod.case assertString_nl sum.case)
    apply (subst r2 [simplified])
    apply (simp only: prod.case assertString_nl sum.case)
    apply (simp del: append_assoc add: r3 [simplified] r4 [simplified] assertString_nl)
    done
qed

lemma parts_split_at_into:
  assumes "''into'' \<in> set ps"
  shows "\<exists>ps2. ps = takeWhile (\<lambda>p. p \<noteq> ''into'') ps @ ''into'' # ps2"
proof -
  have "dropWhile (\<lambda>p. p \<noteq> ''into'') ps \<noteq> []"
    using assms by auto
  then obtain q qs where d: "dropWhile (\<lambda>p. p \<noteq> ''into'') ps = q # qs"
    by (cases "dropWhile (\<lambda>p. p \<noteq> ''into'') ps") auto
  then have "q = ''into''"
    using hd_dropWhile [of "\<lambda>p. p \<noteq> ''into''" ps] by simp
  moreover have "ps = takeWhile (\<lambda>p. p \<noteq> ''into'') ps @ dropWhile (\<lambda>p. p \<noteq> ''into'') ps"
    by simp
  ultimately show ?thesis
    unfolding d by blast
qed

text \<open>
  C10 (as amended). Let the line feed end a field and let the letters of the keywords
  \<open>merge\<close> and \<open>into\<close> not end one. For every \<open>MERGE_PARTS\<close> entry whose
  \<open>source_replica\<close>, \<open>new_part_name\<close> and source part names contain no field-ending
  character: if no source part is named \<open>into\<close>, \<open>readText\<close> on a new entry over the
  text of \<open>writeText\<close> consumes the whole text and reproduces \<open>type\<close>,
  \<open>source_replica\<close>, \<open>new_part_name\<close> and \<open>parts_to_merge\<close>; if a source part is
  named \<open>into\<close>, \<open>readText\<close> stops reading parts at that line: it returns only the
  parts before it, which is not the list that was written, and leaves text unread.
\<close>

theorem LogEntry_merge_text_roundtrip:
  assumes "stop CHR 0x0A" and "plain stop ''merge''" and "plain stop ''into''"
    and "type e = Some MERGE_PARTS"
    and "plain stop (source_replica e)" and "plain stop (new_part_name e)"
    and "\<forall>p \<in> set (parts_to_merge e). plain stop p"
  shows "(''into'' \<notin> set (parts_to_merge e) \<longrightarrow>
            readText stop new_LogEntry (writeText e) =
              Inr (new_LogEntry\<lparr>type := type e, source_replica := source_replica e,
                     new_part_name := new_part_name e, parts_to_merge := parts_to_merge e\<rparr>, [])) \<and>
         (''into'' \<in> set (parts_to_merge e) \<longrightarrow>
            (\<exists>e' rest. readText stop new_LogEntry (writeText e) = Inr (e', rest) \<and>
               parts_to_merge e' = takeWhile (\<lambda>p. p \<noteq> ''into'') (parts_to_merge e) \<and>
               parts_to_merge e' \<noteq> parts_to_merge e \<and> rest \<noteq> []))"
proof (intro conjI impI)
  assume "''into'' \<notin> set (parts_to_merge e)"
  then have "readText stop new_LogEntry
           (''format version: 1\<newline>'' @ ''source replica: '' @ source_replica e @ ''\<newline>'' @
            (''merge\<newline>'' @ concat (map (\<lambda>s. s @ ''\<newline>'') (parts_to_merge e)) @ ''into\<newline>'' @ new_part_name e) @ ''\<newline>'' @ [])
         = Inr (new_LogEntry\<lparr>type := Some MERGE_PARTS, source_replica := source_replica e,
                   new_part_name := new_part_name e,
                   parts_to_merge := parts_to_merge new_LogEntry @ parts_to_merge e\<rparr>, [])"
    using assms by (intro readText_merge_text) auto
  then show "readText stop new_LogEntry (writeText e) =
              Inr (new_LogEntry\<lparr>type := type e, source_replica := source_replica e,
                     new_part_name := new_part_name e, parts_to_merge := parts_to_merge e\<rparr>, [])"
    using assms(4) by (simp add: writeText_def new_LogEntry_def)
next
  assume "''into'' \<in> set (parts_to_merge e)"
  then obtain ps2 where ps: "parts_to_merge e = takeWhile (\<lambda>p. p \<noteq> ''into'') (parts_to_merge e) @ ''into'' # ps2"
    using parts_split_at_into by blast
  define ps1 where "ps1 = takeWhile (\<lambda>p. p \<noteq> ''into'') (parts_to_merge e)"
  define npn where "npn = hd (ps2 @ [''into''])"
  define rest where "rest = concat (map (\<lambda>s. s @ ''\<newline>'') (tl (ps2 @ [''into'']))) @ new_part_name e @ ''\<newline>''"
  have ps': "parts_to_merge e = ps1 @ ''into'' # ps2"
    unfolding ps1_def by (rule ps)
  have ps1: "''into'' \<notin> set ps1" "\<forall>p \<in> set ps1. plain stop p"
    using assms(7) by (auto simp: ps1_def dest: set_takeWhileD)
  have npn: "plain stop npn"
  proof (cases ps2)
    case Nil
    then show ?thesis using assms(3) by (simp add: npn_def)
  next
    case (Cons q qs)
    then have "q \<in> set (parts_to_merge e)" by (subst ps') simp
    then show ?thesis using assms(7) Cons by (simp add: npn_def)
  qed
  have wt: "writeText e =
      ''format version: 1\<newline>'' @ ''source replica: '' @ source_replica e @ ''\<newline>'' @
      (''merge\<newline>'' @ concat (map (\<lambda>s. s @ ''\<newline>'') ps1) @ ''into\<newline>'' @ npn) @ ''\<newline>'' @ rest"
    using assms(4) by (cases ps2) (simp_all add: writeText_def ps' npn_def rest_def)
  have "readText stop new_LogEntry (writeText e) =
      Inr (new_LogEntry\<lparr>type := Some MERGE_PARTS, source_replica := source_replica e,
             new_part_name := npn, parts_to_merge := parts_to_merge new_LogEntry @ ps1\<rparr>, rest)"
    unfolding wt using assms(1,2,3,5) npn ps1 by (intro readText_merge_text) auto
  moreover have "ps1 \<noteq> parts_to_merge e"
    using ps' by auto
  moreover have "rest \<noteq> []"
    by (simp add: rest_def)
  ultimately show "\<exists>e' rest. readText stop new_LogEntry (writeText e) = Inr (e', rest) \<and>
               parts_to_merge e' = takeWhile (\<lambda>p. p \<noteq> ''into'') (parts_to_merge e) \<and>
               parts_to_merge e' \<noteq> parts_to_merge e \<and> rest \<noteq> []"
    by (simp add: new_LogEntry_def ps1_def)
qed

theorem LogEntry_merge_text_roundtrip_witness:
  "readText line_feed new_LogEntry
     (writeText \<lparr>znode_name = [], type = Some MERGE_PARTS, source_replica = ''r1'',
                 new_part_name = ''p3'', parts_to_merge = [''p1'', ''p2'']\<rparr>) =
   Inr (\<lparr>znode_name = [], type = Some MERGE_PARTS, source_replica = ''r1'',
         new_part_name = ''p3'', parts_to_merge = [''p1'', ''p2'']\<rparr>, [])"
  using LogEntry_merge_text_roundtrip [of line_feed
      "\<lparr>znode_name = [], type = Some MERGE_PARTS, source_replica = ''r1'',
        new_part_name = ''p3'', parts_to_merge = [''p1'', ''p2'']\<rparr>"]
  by (simp add: plain_def line_feed_def new_LogEntry_def)

theorem LogEntry_merge_text_roundtrip_counterexample:
  "type \<lparr>znode_name = [], type = Some MERGE_PARTS, source_replica = ''r1'',
         new_part_name = ''p3'', parts_to_merge = [''p1\<newline>p2'']\<rparr> = Some MERGE_PARTS \<and>
   ''into'' \<notin> set (parts_to_merge \<lparr>znode_name = [], type = Some MERGE_PARTS, source_replica = ''r1'',
         new_part_name = ''p3'', parts_to_merge = [''p1\<newline>p2'']\<rparr>) \<and>
   readText line_feed new_LogEntry
     (writeText \<lparr>znode_name = [], type = Some MERGE_PARTS, source_replica = ''r1'',
                 new_part_name = ''p3'', parts_to_merge = [''p1\<newline>p2'']\<rparr>) =
   Inr (\<lparr>znode_name = [], type = Some MERGE_PARTS, source_replica = ''r1'',
         new_part_name = ''p3'', parts_to_merge = [''p1'', ''p2'']\<rparr>, [])"
  by (simp add: readText_def writeText_def bind_err_def assertString_def readString_def
      line_feed_def new_LogEntry_def merge_lines.simps)

text \<open>
  C8. The claim is that \<open>readText\<close> raises an error for every input whose kind line is
  neither \<open>get\<close> nor \<open>merge\<close>. The code has no final \<^verbatim>\<open>else\<close>: for the kind
  \<open>foo\<close> followed by an empty line it returns normally, and so does \<open>parse\<close>; the
  \<open>type\<close> of the entry is never assigned.
\<close>

theorem readText_unknown_kind_accepted:
  "readText line_feed new_LogEntry
     ''format version: 1\<newline>source replica: r1\<newline>foo\<newline>\<newline>''
    = Inr (\<lparr>znode_name = [], type = None, source_replica = ''r1'',
            new_part_name = [], parts_to_merge = []\<rparr>, []) \<and>
   parse line_feed ''format version: 1\<newline>source replica: r1\<newline>foo\<newline>\<newline>''
    = Inr \<lparr>znode_name = [], type = None, source_replica = ''r1'',
            new_part_name = [], parts_to_merge = []\<rparr>"
  by (simp add: parse_def readText_def bind_err_def assertString_def assertEOF_def
      readString_def line_feed_def new_LogEntry_def)

section \<open>Properties of the executor's choice\<close>

lemma no_future_part_iff: "no_future_part fp ns = (\<forall>n \<in> set ns. n \<notin> fp)"
  by (induction ns) auto

text \<open>
  C6. \<open>shouldExecuteLogEntry\<close> returns true for every \<open>GET_PART\<close> entry, and for a
  \<open>MERGE_PARTS\<close> entry it returns true if and only if no name of \<open>parts_to_merge\<close> is
  a member of \<open>future_parts\<close>.
\<close>

theorem shouldExecuteLogEntry_spec:
  "(type e = Some GET_PART \<longrightarrow> shouldExecuteLogEntry fp e) \<and>
   (type e = Some MERGE_PARTS \<longrightarrow>
      shouldExecuteLogEntry fp e = (\<forall>n \<in> set (parts_to_merge e). n \<notin> fp))"
  by (simp add: shouldExecuteLogEntry_def no_future_part_iff)

theorem shouldExecuteLogEntry_spec_witness:
  "shouldExecuteLogEntry {''p2''}
     \<lparr>znode_name = ''queue-0000000000'', type = Some GET_PART, source_replica = ''r1'',
      new_part_name = ''p2'', parts_to_merge = []\<rparr> \<and>
   \<not> shouldExecuteLogEntry {''p2''}
     \<lparr>znode_name = ''queue-0000000001'', type = Some MERGE_PARTS, source_replica = ''r1'',
      new_part_name = ''p3'', parts_to_merge = [''p1'', ''p2'']\<rparr> \<and>
   shouldExecuteLogEntry {''p4''}
     \<lparr>znode_name = ''queue-0000000001'', type = Some MERGE_PARTS, source_replica = ''r1'',
      new_part_name = ''p3'', parts_to_merge = [''p1'', ''p2'']\<rparr>"
  using shouldExecuteLogEntry_spec [of "\<lparr>znode_name = ''queue-0000000000'', type = Some GET_PART, source_replica = ''r1'',
      new_part_name = ''p2'', parts_to_merge = []\<rparr>" "{''p2''}"]
    shouldExecuteLogEntry_spec [of "\<lparr>znode_name = ''queue-0000000001'', type = Some MERGE_PARTS, source_replica = ''r1'',
      new_part_name = ''p3'', parts_to_merge = [''p1'', ''p2'']\<rparr>" "{''p2''}"]
    shouldExecuteLogEntry_spec [of "\<lparr>znode_name = ''queue-0000000001'', type = Some MERGE_PARTS, source_replica = ''r1'',
      new_part_name = ''p3'', parts_to_merge = [''p1'', ''p2'']\<rparr>" "{''p4''}"]
  by simp

section \<open>Properties of checkParts\<close>

lemma sort_out_parts_eq:
  assumes "distinct (map name parts)"
  shows "sort_out_parts expected unexpected parts =
           (expected - name ` set parts, unexpected @ filter (\<lambda>p. name p \<notin> expected) parts)"
  using assms
proof (induction parts arbitrary: expected unexpected)
  case Nil
  then show ?case by simp
next
  case (Cons part parts)
  have d: "distinct (map name parts)"
    using Cons.prems by simp
  have "name part \<notin> name ` set parts"
    using Cons.prems by simp
  then have fresh: "\<forall>q \<in> set parts. name q \<noteq> name part"
    by (metis imageI)
  show ?case
  proof (cases "name part \<in> expected")
    case True
    have "filter (\<lambda>p. name p \<notin> expected - {name part}) parts = filter (\<lambda>p. name p \<notin> expected) parts"
      using fresh by (intro filter_cong) auto
    moreover have "expected - {name part} - name ` set parts = expected - name ` set (part # parts)"
      by auto
    ultimately show ?thesis
      using True Cons.IH [OF d, of "expected - {name part}" unexpected] by simp
  next
    case False
    have "expected - name ` set parts = expected - name ` set (part # parts)"
      using False by auto
    then show ?thesis
      using False Cons.IH [OF d, of expected "unexpected @ [part]"] by simp
  qed
qed

text \<open>
  C7. Let \<open>expected\<close> be the children of \<open>/replicas/<me>/parts\<close> and let the local
  parts have distinct names. In the order in which the conditions are tested:
  if an expected part is missing locally, \<open>checkParts\<close> fails with
  \<open>NOT_FOUND_EXPECTED_DATA_PART\<close>; otherwise, if more than one local part is not
  expected, it fails with \<open>TOO_MANY_UNEXPECTED_DATA_PARTS\<close>; otherwise, if exactly one
  local part is unexpected, that part is detached with the prefix \<open>ignored_\<close> (and
  reported) and \<open>checkParts\<close> succeeds; if the two sets coincide, it succeeds and
  changes nothing.
\<close>

theorem checkParts_spec:
  assumes "getChildren (zookeeper st) (replica_path st @ ''/parts'') = Inr expected"
    and "distinct (map name (getDataParts ext (data st)))"
  shows "((\<exists>n \<in> set expected. n \<notin> name ` set (getDataParts ext (data st))) \<longrightarrow>
            checkParts ext st = Inl NOT_FOUND_EXPECTED_DATA_PART) \<and>
         (set expected \<subseteq> name ` set (getDataParts ext (data st)) \<and>
          1 < length (filter (\<lambda>p. name p \<notin> set expected) (getDataParts ext (data st))) \<longrightarrow>
            checkParts ext st = Inl TOO_MANY_UNEXPECTED_DATA_PARTS) \<and>
         (set expected \<subseteq> name ` set (getDataParts ext (data st)) \<and>
          filter (\<lambda>p. name p \<notin> set expected) (getDataParts ext (data st)) = [part] \<longrightarrow>
            checkParts ext st =
              Inr ((LOG PRIO_ERROR (''Unexpected part '' @ name part @ ''. Renaming it to ignored_'' @ name part) st)
                     \<lparr>data := renameAndDetachPart ext (data st) part ''ignored_''\<rparr>)) \<and>
         (set expected = name ` set (getDataParts ext (data st)) \<longrightarrow> checkParts ext st = Inr st)"
proof -
  let ?parts = "getDataParts ext (data st)"
  let ?unexpected = "filter (\<lambda>p. name p \<notin> set expected) ?parts"
  have s: "sort_out_parts (set expected) [] ?parts = (set expected - name ` set ?parts, ?unexpected)"
    using sort_out_parts_eq [OF assms(2), of "set expected" "[]"] by simp
  have c: "checkParts ext st =
      (if set expected - name ` set ?parts \<noteq> {} then Inl NOT_FOUND_EXPECTED_DATA_PART
       else if 1 < length ?unexpected then Inl TOO_MANY_UNEXPECTED_DATA_PARTS
       else Inr (detach_parts ext st ?unexpected))"
    by (simp add: checkParts_def assms(1) bind_err_def s)
  have same: "?unexpected = []" if "set expected = name ` set ?parts"
    using that by (auto simp: filter_empty_conv)
  show ?thesis
  proof (intro conjI impI)
    assume "\<exists>n \<in> set expected. n \<notin> name ` set ?parts"
    then have "set expected - name ` set ?parts \<noteq> {}" by blast
    then show "checkParts ext st = Inl NOT_FOUND_EXPECTED_DATA_PART"
      by (simp add: c)
  next
    assume "set expected \<subseteq> name ` set ?parts \<and> 1 < length ?unexpected"
    then have "set expected - name ` set ?parts = {}" and "1 < length ?unexpected" by blast+
    then show "checkParts ext st = Inl TOO_MANY_UNEXPECTED_DATA_PARTS"
      by (simp add: c)
  next
    assume "set expected \<subseteq> name ` set ?parts \<and> ?unexpected = [part]"
    then have "set expected - name ` set ?parts = {}" and "?unexpected = [part]" by blast+
    then show "checkParts ext st =
              Inr ((LOG PRIO_ERROR (''Unexpected part '' @ name part @ ''. Renaming it to ignored_'' @ name part) st)
                     \<lparr>data := renameAndDetachPart ext (data st) part ''ignored_''\<rparr>)"
      by (simp add: c)
  next
    assume e: "set expected = name ` set ?parts"
    then have "set expected - name ` set ?parts = {}" by blast
    then show "checkParts ext st = Inr st"
      by (simp add: c same [OF e])
  qed
qed

theorem checkParts_spec_witness:
  "checkParts example_collaborators
     (example_storage
        [(''/t/replicas/r1/parts'', example_node [] 1),
         (''/t/replicas/r1/parts/p1'', example_node [] 2),
         (''/t/replicas/r1/parts/p2'', example_node [] 3)]
        [example_part ''p1'' 1 1, example_part ''p2'' 2 2, example_part ''p3'' 3 3] [])
   = Inr ((example_storage
        [(''/t/replicas/r1/parts'', example_node [] 1),
         (''/t/replicas/r1/parts/p1'', example_node [] 2),
         (''/t/replicas/r1/parts/p2'', example_node [] 3)]
        [example_part ''p1'' 1 1, example_part ''p2'' 2 2, example_part ''p3'' 3 3] [])
          \<lparr>data := ([example_part ''p1'' 1 1, example_part ''p2'' 2 2], [''ignored_p3'']),
           log := [(PRIO_ERROR, ''Unexpected part p3. Renaming it to ignored_p3'')]\<rparr>)"
proof -
  let ?st = "example_storage
        [(''/t/replicas/r1/parts'', example_node [] 1),
         (''/t/replicas/r1/parts/p1'', example_node [] 2),
         (''/t/replicas/r1/parts/p2'', example_node [] 3)]
        [example_part ''p1'' 1 1, example_part ''p2'' 2 2, example_part ''p3'' 3 3] []"
  have g: "getChildren (zookeeper ?st) (replica_path ?st @ ''/parts'') = Inr [''p1'', ''p2'']"
    by (simp add: getChildren_def exists_def children_def is_child_def example_storage_def)
  have d: "distinct (map name (getDataParts example_collaborators (data ?st)))"
    by (simp add: example_storage_def example_collaborators_def example_part_def)
  show ?thesis
    using checkParts_spec [OF g d, of "example_part ''p3'' 3 3"]
    by (simp add: example_storage_def example_collaborators_def example_part_def LOG_def)
qed

section \<open>Properties of canMergeParts\<close>

lemma blocks_abandoned_total:
  assumes "bound \<noteq> - 1"
  shows "blocks_abandoned c zp number bound =
           Some (\<forall>n. number \<le> n \<and> n \<le> bound \<longrightarrow> c (block_path zp n) = ABANDONED)"
  using assms
proof (induction "unat bound + 1 - unat number" arbitrary: number)
  case 0
  then have "\<not> number \<le> bound"
    by (simp add: word_le_nat_alt)
  then show ?case
    by (subst blocks_abandoned.simps) auto
next
  case (Suc k)
  then have le: "number \<le> bound"
    by (simp add: word_le_nat_alt)
  have "bound < - 1"
    using Suc.prems by (simp add: word_order.not_eq_extremum)
  with le have lt: "number < - 1" by simp
  then have ne: "number \<noteq> - 1" by simp
  have un: "unat (number + 1) = Suc (unat number)"
    using lt by unat_arith
  have k: "k = unat bound + 1 - unat (number + 1)"
    using Suc.hyps(2) un by simp
  have step: "(\<forall>n. number \<le> n \<and> n \<le> bound \<longrightarrow> P n) = (P number \<and> (\<forall>n. number + 1 \<le> n \<and> n \<le> bound \<longrightarrow> P n))" for P
  proof -
    have "number \<le> n \<longleftrightarrow> n = number \<or> number + 1 \<le> n" for n
      using ne by (auto simp: inc_less_eq_iff)
    then show ?thesis using le by auto
  qed
  show ?case
  proof (cases "c (block_path zp number) = ABANDONED")
    case True
    show ?thesis
      apply (subst blocks_abandoned.simps)
      apply (subst step)
      using le True Suc.hyps(1) [OF k Suc.prems] apply simp
      done
  next
    case False
    show ?thesis
      apply (subst blocks_abandoned.simps)
      apply (subst step)
      using le False apply simp
      done
  qed
qed


text \<open>
  C4 (as amended). For all parts \<open>L\<close> and \<open>R\<close> with \<open>R.left \<noteq> 0\<close> and \<open>L.right\<close>
  not the greatest 64-bit number (as whenever \<open>L.right < R.left\<close>), \<open>canMergeParts\<close>
  returns, and it returns true if and only if neither name is in
  \<open>currently_merging\<close> and every block number \<open>n\<close> with \<open>L.right < n < R.left\<close> has
  an abandoned lock at \<open>/block_numbers/block-<n padded to 10 digits>\<close>.
\<close>

theorem canMergeParts_spec:
  assumes "left r \<noteq> 0" and "right l \<noteq> - 1"
  shows "canMergeParts ext st l r =
           Some (name l \<notin> currently_merging st \<and> name r \<notin> currently_merging st \<and>
                 (\<forall>n. right l < n \<and> n < left r \<longrightarrow>
                    lock_check ext (zookeeper st) (block_path (zookeeper_path st) n) = ABANDONED))"
proof -
  have b: "left r - 1 \<noteq> - 1"
    using assms(1) by simp
  have lo: "(right l + 1 \<le> n) = (right l < n)" for n
    using assms(2) by (simp add: inc_less_eq_iff)
  have hi: "(n \<le> left r - 1) = (n < left r)" for n
    using assms(1) by (simp add: less_eq_dec_iff)
  show ?thesis
    by (simp add: canMergeParts_def blocks_abandoned_total [OF b] lo hi)
qed

theorem canMergeParts_spec_witness:
  "canMergeParts (example_collaborators\<lparr>lock_check := \<lambda>z p. ABANDONED\<rparr>)
     (example_storage [] [] [])
     (example_part ''20140101_20140101_1_3_1'' 1 3) (example_part ''20140101_20140101_6_6_0'' 6 6)
   = Some True"
  using canMergeParts_spec [of "example_part ''20140101_20140101_6_6_0'' 6 6"
      "example_part ''20140101_20140101_1_3_1'' 1 3"
      "example_collaborators\<lparr>lock_check := \<lambda>z p. ABANDONED\<rparr>" "example_storage [] [] []"]
  by (simp add: example_part_def example_storage_def example_collaborators_def)

theorem canMergeParts_spec_counterexample:
  "canMergeParts (example_collaborators\<lparr>lock_check := \<lambda>z p. LIVE\<rparr>)
     (example_storage [] [] [])
     (example_part ''20140101_20140101_5_5_0'' 5 5) (example_part ''20140101_20140101_0_0_0'' 0 0)
   = Some False \<and>
   name (example_part ''20140101_20140101_5_5_0'' 5 5) \<notin> currently_merging (example_storage [] [] []) \<and>
   name (example_part ''20140101_20140101_0_0_0'' 0 0) \<notin> currently_merging (example_storage [] [] []) \<and>
   \<not> (\<exists>n. right (example_part ''20140101_20140101_5_5_0'' 5 5) < n \<and>
           n < left (example_part ''20140101_20140101_0_0_0'' 0 0))"
  by (simp add: canMergeParts_def example_part_def example_storage_def example_collaborators_def
      blocks_abandoned.simps [of _ _ 6])

section \<open>Properties of pullLogsToQueue\<close>

lemma map_of_change_node:
  "map_of (change_node p f ns) q = (if q = p then map_option f (map_of ns q) else map_of ns q)"
  by (induction ns) (auto simp: change_node_def)

lemma map_of_change_node_None: "map_of ns q = None \<Longrightarrow> map_of (change_node p f ns) q = None"
  by (auto simp: map_of_change_node)

lemma digits_no_slash: "CHR ''/'' \<notin> set (digits n)"
proof (induction n rule: digits.induct)
  case (1 n)
  have d: "''0123456789'' ! k \<noteq> CHR ''/''" if "k < 10" for k :: nat
  proof -
    from that have "''0123456789'' ! k \<in> set ''0123456789''"
      by (intro nth_mem) simp
    then show ?thesis by auto
  qed
  show ?case
  proof (cases "n < 10")
    case True
    then show ?thesis
      using d [of n] by (subst digits.simps) simp
  next
    case False
    then show ?thesis
      using d [of "n mod 10"] 1 by (subst digits.simps) simp
  qed
qed

lemma pad10_no_slash: "CHR ''/'' \<notin> set s \<Longrightarrow> CHR ''/'' \<notin> set (pad10 s)"
  by (auto simp: pad10_def)

lemma node_name_child:
  assumes "CHR ''/'' \<notin> set s"
  shows "node_name (p @ ''/'' @ s) = s"
proof -
  have h: "takeWhile (\<lambda>c. c \<noteq> CHR ''/'') (rev s) = rev s"
    using assms by (auto simp: takeWhile_eq_all_conv)
  show ?thesis
    by (simp add: node_name_def takeWhile_tail h)
qed

lemma apply_op_Create:
  assumes "apply_op zx z (Create (p @ ''/'' @ s) d PersistentSequential) = Inr (z', r)"
  shows "\<exists>k. r = CreateResult (p @ ''/'' @ s @ pad10 (digits k)) \<and>
             \<not> exists z (p @ ''/'' @ s @ pad10 (digits k)) \<and>
             map_of (nodes z') (p @ ''/'' @ s @ pad10 (digits k)) =
               Some \<lparr>node_data = d, node_czxid = zx, node_cversion = 0\<rparr> \<and>
             (\<forall>q. q \<noteq> p @ ''/'' @ s @ pad10 (digits k) \<longrightarrow> exists z q \<longrightarrow> exists z' q)"
proof -
  let ?k = "next_sequence z (parent_path (p @ ''/'' @ s))"
  let ?p' = "p @ ''/'' @ s @ pad10 (digits ?k)"
  from assms have ne: "\<not> exists z ?p'"
    and z': "z' = z\<lparr>nodes := child_changed (parent_path (p @ ''/'' @ s)) (nodes z) @
                            [(?p', \<lparr>node_data = d, node_czxid = zx, node_cversion = 0\<rparr>)]\<rparr>"
    and r: "r = CreateResult ?p'"
    by (auto simp: Let_def split: if_splits)
  have none: "map_of (child_changed (parent_path (p @ ''/'' @ s)) (nodes z)) ?p' = None"
    using ne unfolding child_changed_def exists_def by (intro map_of_change_node_None) simp
  have "map_of (nodes z') ?p' = Some \<lparr>node_data = d, node_czxid = zx, node_cversion = 0\<rparr>"
    unfolding z' using none by (simp add: map_add_def)
  moreover have "exists z' q" if "exists z q" for q
    using that unfolding z' by (auto simp: exists_def child_changed_def map_of_change_node map_add_def split: option.splits)
  ultimately show ?thesis
    using ne r by blast
qed

lemma apply_op_SetData:
  assumes "apply_op zx z (SetData p d) = Inr (z', r)"
  shows "get z' p = Inr d \<and> (\<forall>q. q \<noteq> p \<longrightarrow> map_of (nodes z') q = map_of (nodes z) q)"
  using assms
  by (auto simp: get_def exists_def map_of_change_node split: if_splits option.splits)

lemma multi_create_set:
  assumes "multi z [Create (p @ ''/'' @ s) d PersistentSequential, SetData ptr v] = Inr (z', rs)"
    and "\<forall>t. ptr \<noteq> p @ ''/'' @ s @ t"
  shows "\<exists>k. rs = [CreateResult (p @ ''/'' @ s @ pad10 (digits k)), SetDataResult] \<and>
             \<not> exists z (p @ ''/'' @ s @ pad10 (digits k)) \<and>
             get z' (p @ ''/'' @ s @ pad10 (digits k)) = Inr d \<and>
             get z' ptr = Inr v"
proof -
  from assms(1) obtain z1 r1 z2 r2 where
    c: "apply_op (last_zxid z + 1) z (Create (p @ ''/'' @ s) d PersistentSequential) = Inr (z1, r1)"
    and s: "apply_op (last_zxid z + 1) z1 (SetData ptr v) = Inr (z2, r2)"
    and z': "z' = z2\<lparr>last_zxid := last_zxid z + 1\<rparr>" and rs: "rs = [r1, r2]"
    by (auto simp: multi_def split: sum.splits)
  from apply_op_Create [OF c] obtain k where
    k: "r1 = CreateResult (p @ ''/'' @ s @ pad10 (digits k))"
       "\<not> exists z (p @ ''/'' @ s @ pad10 (digits k))"
       "map_of (nodes z1) (p @ ''/'' @ s @ pad10 (digits k)) =
               Some \<lparr>node_data = d, node_czxid = last_zxid z + 1, node_cversion = 0\<rparr>"
    by blast
  from apply_op_SetData [OF s] have
    g: "get z2 ptr = Inr v" and o: "\<forall>q. q \<noteq> ptr \<longrightarrow> map_of (nodes z2) q = map_of (nodes z1) q"
    by blast+
  have r2: "r2 = SetDataResult"
    using s by (auto split: if_splits)
  have "map_of (nodes z2) (p @ ''/'' @ s @ pad10 (digits k)) =
          Some \<lparr>node_data = d, node_czxid = last_zxid z + 1, node_cversion = 0\<rparr>"
    using o k(3) assms(2) by metis
  then have "get z' (p @ ''/'' @ s @ pad10 (digits k)) = Inr d"
    by (simp add: get_def z')
  moreover have "get z' ptr = Inr v"
    using g by (simp add: get_def z')
  ultimately show ?thesis
    using k(1,2) rs r2 by blast
qed


lemma enqueue_entry_cases:
  "(\<exists>err. enqueue_entry ext st it = (st, Inl err) \<and>
          (parse (field_end ext) (entry_str it) = Inl err \<or>
           multi (zookeeper st)
             [Create (replica_path st @ ''/queue/queue-'') (entry_str it) PersistentSequential,
              SetData (replica_path st @ ''/log_pointers/'' @ replica it) (toString (index it + 1))] = Inl err)) \<or>
   (\<exists>entry z' k. parse (field_end ext) (entry_str it) = Inr entry \<and>
      multi (zookeeper st)
             [Create (replica_path st @ ''/queue/queue-'') (entry_str it) PersistentSequential,
              SetData (replica_path st @ ''/log_pointers/'' @ replica it) (toString (index it + 1))]
        = Inr (z', [CreateResult (replica_path st @ ''/queue/queue-'' @ pad10 (digits k)), SetDataResult]) \<and>
      \<not> exists (zookeeper st) (replica_path st @ ''/queue/queue-'' @ pad10 (digits k)) \<and>
      get z' (replica_path st @ ''/queue/queue-'' @ pad10 (digits k)) = Inr (entry_str it) \<and>
      get z' (replica_path st @ ''/log_pointers/'' @ replica it) = Inr (toString (index it + 1)) \<and>
      enqueue_entry ext st it =
        ((tagPartsAsCurrentlyMerging (entry\<lparr>znode_name := ''queue-'' @ pad10 (digits k)\<rparr>) (st\<lparr>zookeeper := z'\<rparr>))
           \<lparr>queue := queue st @ [entry\<lparr>znode_name := ''queue-'' @ pad10 (digits k)\<rparr>]\<rparr>, Inr ()))"
proof (cases "parse (field_end ext) (entry_str it)")
  case (Inl err)
  then show ?thesis
    by (simp add: enqueue_entry_def)
next
  case (Inr entry)
  note p = Inr
  let ?ops = "[Create (replica_path st @ ''/queue/queue-'') (entry_str it) PersistentSequential,
              SetData (replica_path st @ ''/log_pointers/'' @ replica it) (toString (index it + 1))]"
  show ?thesis
  proof (cases "multi (zookeeper st) ?ops")
    case (Inl err)
    then show ?thesis
      using p by (simp add: enqueue_entry_def)
  next
    case (Inr res)
    obtain z' rs where res: "res = (z', rs)"
      by (cases res)
    have m: "multi (zookeeper st)
        [Create (replica_path st @ ''/'' @ ''queue/queue-'') (entry_str it) PersistentSequential,
         SetData (replica_path st @ ''/log_pointers/'' @ replica it) (toString (index it + 1))] = Inr (z', rs)"
      using Inr res by simp
    have ne: "\<forall>t. replica_path st @ ''/log_pointers/'' @ replica it \<noteq> replica_path st @ ''/'' @ ''queue/queue-'' @ t"
      by simp
    from multi_create_set [OF m ne] obtain k where
      k: "rs = [CreateResult (replica_path st @ ''/queue/queue-'' @ pad10 (digits k)), SetDataResult]"
         "\<not> exists (zookeeper st) (replica_path st @ ''/queue/queue-'' @ pad10 (digits k))"
         "get z' (replica_path st @ ''/queue/queue-'' @ pad10 (digits k)) = Inr (entry_str it)"
         "get z' (replica_path st @ ''/log_pointers/'' @ replica it) = Inr (toString (index it + 1))"
      by auto
    have "CHR ''/'' \<notin> set (''queue-'' @ pad10 (digits k))"
      using pad10_no_slash [OF digits_no_slash, of k] by simp
    from node_name_child [OF this, of "replica_path st @ ''/queue''"]
    have nn: "node_name (replica_path st @ ''/queue/queue-'' @ pad10 (digits k)) = ''queue-'' @ pad10 (digits k)"
      by simp
    have q: "queue (tagPartsAsCurrentlyMerging e s) = queue s" for e and s :: "'a Storage"
      by (simp add: tagPartsAsCurrentlyMerging_def)
    have "enqueue_entry ext st it =
        ((tagPartsAsCurrentlyMerging (entry\<lparr>znode_name := ''queue-'' @ pad10 (digits k)\<rparr>) (st\<lparr>zookeeper := z'\<rparr>))
           \<lparr>queue := queue st @ [entry\<lparr>znode_name := ''queue-'' @ pad10 (digits k)\<rparr>]\<rparr>, Inr ())"
      unfolding enqueue_entry_def p Inr res k(1)
      by (simp only: sum.case prod.case list.case OpResult.case Let_def nn q) simp
    then show ?thesis
      using p Inr res k by blast
  qed
qed

text \<open>
  C2. For the entry \<open>pullLogsToQueue\<close> takes from the priority queue, the queue node is
  created and the log pointer of the peer is set in one \<open>multi\<close>. If that operation
  fails (or the entry does not parse), the exception leaves the storage as it was:
  the log pointer is not advanced, no queue node is created and the queue in memory is
  unchanged. If nothing fails, the log pointer holds \<open>index + 1\<close>, a new node of the
  queue holds the text of the entry, and the entry is at the tail of the queue in
  memory under the name of that node.
\<close>

theorem enqueue_entry_atomic:
  "(\<forall>err. multi (zookeeper st)
             [Create (replica_path st @ ''/queue/queue-'') (entry_str it) PersistentSequential,
              SetData (replica_path st @ ''/log_pointers/'' @ replica it) (toString (index it + 1))] = Inl err
          \<longrightarrow> fst (enqueue_entry ext st it) = st \<and> snd (enqueue_entry ext st it) \<noteq> Inr ()) \<and>
   (snd (enqueue_entry ext st it) \<noteq> Inr () \<longrightarrow> fst (enqueue_entry ext st it) = st) \<and>
   (snd (enqueue_entry ext st it) = Inr () \<longrightarrow>
      get (zookeeper (fst (enqueue_entry ext st it))) (replica_path st @ ''/log_pointers/'' @ replica it)
        = Inr (toString (index it + 1)) \<and>
      (\<exists>entry. queue (fst (enqueue_entry ext st it)) = queue st @ [entry] \<and>
         \<not> exists (zookeeper st) (replica_path st @ ''/queue/'' @ znode_name entry) \<and>
         get (zookeeper (fst (enqueue_entry ext st it))) (replica_path st @ ''/queue/'' @ znode_name entry)
           = Inr (entry_str it)))"
proof -
  have z: "zookeeper (tagPartsAsCurrentlyMerging e s) = zookeeper s" for e and s :: "'a Storage"
    by (simp add: tagPartsAsCurrentlyMerging_def)
  from enqueue_entry_cases [of ext st it] consider
    (failed) err where "enqueue_entry ext st it = (st, Inl err)"
  | (succeeded) entry z' k where
      "multi (zookeeper st)
             [Create (replica_path st @ ''/queue/queue-'') (entry_str it) PersistentSequential,
              SetData (replica_path st @ ''/log_pointers/'' @ replica it) (toString (index it + 1))]
        = Inr (z', [CreateResult (replica_path st @ ''/queue/queue-'' @ pad10 (digits k)), SetDataResult])"
      "\<not> exists (zookeeper st) (replica_path st @ ''/queue/queue-'' @ pad10 (digits k))"
      "get z' (replica_path st @ ''/queue/queue-'' @ pad10 (digits k)) = Inr (entry_str it)"
      "get z' (replica_path st @ ''/log_pointers/'' @ replica it) = Inr (toString (index it + 1))"
      "enqueue_entry ext st it =
        ((tagPartsAsCurrentlyMerging (entry\<lparr>znode_name := ''queue-'' @ pad10 (digits k)\<rparr>) (st\<lparr>zookeeper := z'\<rparr>))
           \<lparr>queue := queue st @ [entry\<lparr>znode_name := ''queue-'' @ pad10 (digits k)\<rparr>]\<rparr>, Inr ())"
    by blast
  then show ?thesis
  proof cases
    case failed
    then show ?thesis
      by simp
  next
    case succeeded
    show ?thesis
      unfolding succeeded(5) using succeeded(1-4) by (simp add: z)
  qed
qed

theorem enqueue_entry_atomic_witness:
  "enqueue_entry example_collaborators
     (example_storage (filter (\<lambda>(p, n). p \<noteq> ''/t/replicas/r1/queue'') two_logs) [] []) first_of_r2
   = (example_storage (filter (\<lambda>(p, n). p \<noteq> ''/t/replicas/r1/queue'') two_logs) [] [],
      Inl (KeeperException NoNode)) \<and>
   get (zookeeper (fst (enqueue_entry example_collaborators (example_storage two_logs [] []) first_of_r2)))
     ''/t/replicas/r1/log_pointers/r2'' = Inr ''1''"
proof -
  let ?st = "example_storage (filter (\<lambda>(p, n). p \<noteq> ''/t/replicas/r1/queue'') two_logs) [] []"
  have f: "snd (enqueue_entry example_collaborators ?st first_of_r2) = Inl (KeeperException NoNode)"
    by code_simp
  then have "fst (enqueue_entry example_collaborators ?st first_of_r2) = ?st"
    using enqueue_entry_atomic [of ?st first_of_r2 example_collaborators] by simp
  with f have 1: "enqueue_entry example_collaborators ?st first_of_r2 = (?st, Inl (KeeperException NoNode))"
    by (simp add: prod_eq_iff)
  have s: "snd (enqueue_entry example_collaborators (example_storage two_logs [] []) first_of_r2) = Inr ()"
    by code_simp
  have t: "toString (index first_of_r2 + 1) = ''1''"
    by code_simp
  have 2: "get (zookeeper (fst (enqueue_entry example_collaborators (example_storage two_logs [] []) first_of_r2)))
     ''/t/replicas/r1/log_pointers/r2'' = Inr ''1''"
    using enqueue_entry_atomic [of "example_storage two_logs [] []" first_of_r2 example_collaborators] s t
    by (simp add: example_storage_def first_of_r2_def)
  from 1 2 show ?thesis by simp
qed

text \<open>
  C1. The claim is that the entries are taken from the priority queue earliest
  \<open>czxid\<close> first and enter the queue in non-decreasing \<open>czxid\<close> order.
  \<^verbatim>\<open>std::priority_queue\<close> yields its greatest element and \<^verbatim>\<open>operator<\<close> compares
  the timestamps as they are, so the latest entry comes first: with one entry in the
  log of \<open>r1\<close> (created in transaction 20, for part \<open>p1\<close>) and one in the log of \<open>r2\<close>
  (transaction 30, part \<open>p2\<close>), one call puts the entry for \<open>p2\<close> into the queue
  before the entry for \<open>p1\<close>.
\<close>

theorem pullLogsToQueue_latest_first:
  "map_option (\<lambda>(st, r). (map new_part_name (queue st), map znode_name (queue st), r))
     (pullLogsToQueue example_collaborators (example_storage two_logs [] []))
   = Some ([''p2'', ''p1''], [''queue-0000000000'', ''queue-0000000001''], Inr ())"
  by code_simp

section \<open>Properties of executeLogEntry\<close>

lemma LOG_keeps [simp]:
  "queue (LOG p m st) = queue st" "shutdown_called (LOG p m st) = shutdown_called st"
  "zookeeper (LOG p m st) = zookeeper st" "data (LOG p m st) = data st"
  "zookeeper_path (LOG p m st) = zookeeper_path st" "replica_path (LOG p m st) = replica_path st"
  by (simp_all add: LOG_def)

lemma log_obsolete_keeps [simp]:
  "queue (log_obsolete n ps st) = queue st" "shutdown_called (log_obsolete n ps st) = shutdown_called st"
  by (induction ps arbitrary: st) simp_all

lemma log_obsolete_keeps_store:
  "zookeeper (log_obsolete n ps st) = zookeeper st \<and> data (log_obsolete n ps st) = data st \<and>
   zookeeper_path (log_obsolete n ps st) = zookeeper_path st \<and>
   replica_path (log_obsolete n ps st) = replica_path st \<and>
   set (log st) \<subseteq> set (log (log_obsolete n ps st))"
proof (induction ps arbitrary: st)
  case Nil
  show ?case by simp
next
  case (Cons p ps)
  have "set (log st) \<subseteq> set (log (LOG PRIO_DEBUG (''Part '' @ name p @ '' is rendered obsolete by fetching part '' @ n) st))"
    by (auto simp: LOG_def)
  with Cons [of "LOG PRIO_DEBUG (''Part '' @ name p @ '' is rendered obsolete by fetching part '' @ n) st"]
  show ?case
    by auto
qed

lemma find_first:
  assumes "\<forall>x \<in> set skipped. \<not> P x" and "P r"
  shows "find P (skipped @ r # others) = Some r"
  using assms by (induction skipped) simp_all

lemma has_part_and_is_active_LOG:
  "has_part_and_is_active (LOG p m st) n = has_part_and_is_active st n"
  by (rule ext) (simp add: has_part_and_is_active_def)

lemma findActiveReplicaHavingPart_LOG:
  "findActiveReplicaHavingPart ext (LOG p m st) n = findActiveReplicaHavingPart ext st n"
  by (simp add: findActiveReplicaHavingPart_def has_part_and_is_active_LOG)

lemma findActiveReplicaHavingPart_none:
  assumes "getChildren (zookeeper st) (zookeeper_path st @ ''/replicas'') = Inr replicas"
    and "\<forall>r \<in> set (random_shuffle ext replicas). \<not> has_part_and_is_active st n r"
  shows "findActiveReplicaHavingPart ext st n = Inl NO_REPLICA_HAS_PART"
proof -
  from assms(2) have "find (has_part_and_is_active st n) (random_shuffle ext replicas) = None"
    by (simp add: find_None_iff)
  with assms(1) show ?thesis
    by (simp add: findActiveReplicaHavingPart_def bind_err_def)
qed

lemma findActiveReplicaHavingPart_first:
  assumes "getChildren (zookeeper st) (zookeeper_path st @ ''/replicas'') = Inr replicas"
    and "random_shuffle ext replicas = skipped @ r # others"
    and "\<forall>x \<in> set skipped. \<not> has_part_and_is_active st n x"
    and "has_part_and_is_active st n r"
  shows "findActiveReplicaHavingPart ext st n = Inr r"
proof -
  have "find (has_part_and_is_active st n) (random_shuffle ext replicas) = Some r"
    unfolding assms(2) using assms(3,4) by (rule find_first)
  with assms(1) show ?thesis
    by (simp add: findActiveReplicaHavingPart_def bind_err_def)
qed

lemma findActiveReplicaHavingPart_Inr:
  assumes "findActiveReplicaHavingPart ext st n = Inr r"
  shows "\<exists>replicas. getChildren (zookeeper st) (zookeeper_path st @ ''/replicas'') = Inr replicas \<and>
           r \<in> set (random_shuffle ext replicas) \<and> has_part_and_is_active st n r"
proof -
  from assms obtain replicas where
    g: "getChildren (zookeeper st) (zookeeper_path st @ ''/replicas'') = Inr replicas"
    and f: "find (has_part_and_is_active st n) (random_shuffle ext replicas) = Some r"
    by (cases "getChildren (zookeeper st) (zookeeper_path st @ ''/replicas'')")
      (auto simp: findActiveReplicaHavingPart_def bind_err_def split: option.splits)
  from f have "r \<in> set (random_shuffle ext replicas) \<and> has_part_and_is_active st n r"
    by (auto simp: find_Some_iff)
  with g show ?thesis by blast
qed

text \<open>What a successful \<^verbatim>\<open>fetchPart\<close> has done, and what it leaves.\<close>

lemma fetchPart_Inr:
  assumes "snd (fetchPart ext st n r) = Inr ()"
  shows "\<exists>host_port_str host port fetched.
           get (zookeeper st) (zookeeper_path st @ ''/replicas/'' @ r @ ''/host'') = Inr host_port_str \<and>
           read_host_port (field_end ext) host_port_str = Inr (host, port) \<and>
           fetcher_fetchPart ext n (zookeeper_path st @ ''/replicas/'' @ r) host port = Inr fetched \<and>
           data (fst (fetchPart ext st n r)) = fst (renameTempPartAndReplace ext (data st) fetched)"
proof -
  let ?g = "get (zookeeper st) (zookeeper_path st @ ''/replicas/'' @ r @ ''/host'')"
  from assms obtain host_port_str where g: "?g = Inr host_port_str"
    by (cases ?g) (auto simp: fetchPart_def Let_def bind_err_def)
  from assms g obtain host port where h: "read_host_port (field_end ext) host_port_str = Inr (host, port)"
    by (cases "read_host_port (field_end ext) host_port_str") (auto simp: fetchPart_def Let_def bind_err_def)
  let ?f = "fetcher_fetchPart ext n (zookeeper_path st @ ''/replicas/'' @ r) host port"
  from assms g h obtain fetched where f: "?f = Inr fetched"
    by (cases ?f) (auto simp: fetchPart_def Let_def bind_err_def)
  from assms g h f have "data (fst (fetchPart ext st n r)) = fst (renameTempPartAndReplace ext (data st) fetched)"
    by (auto simp: fetchPart_def Let_def bind_err_def log_obsolete_keeps_store split: prod.splits sum.splits)
  with g h f show ?thesis by blast
qed

lemma fetchPart_fetched:
  assumes "get (zookeeper st) (zookeeper_path st @ ''/replicas/'' @ r @ ''/host'') = Inr host_port_str"
    and "read_host_port (field_end ext) host_port_str = Inr (host, port)"
    and "fetcher_fetchPart ext n (zookeeper_path st @ ''/replicas/'' @ r) host port = Inr fetched"
    and "renameTempPartAndReplace ext (data st) fetched = (d', part, removed_parts)"
    and "multi (zookeeper st)
           (create_part_ops (replica_path st) part @ remove_part_ops (replica_path st) removed_parts) = Inr (z', rs)"
  shows "fetchPart ext st n r =
           (LOG PRIO_DEBUG ''Fetched part''
              ((log_obsolete n removed_parts
                  ((LOG PRIO_DEBUG (''Fetching part '' @ n @ '' from '' @ r) st)\<lparr>data := d'\<rparr>))\<lparr>zookeeper := z'\<rparr>),
            Inr ())"
  using assms by (simp add: fetchPart_def Let_def bind_err_def log_obsolete_keeps_store)

text \<open>The nodes a transaction leaves: a node it does not remove is still there.\<close>

lemma map_of_filter_other:
  "p \<noteq> q \<Longrightarrow> map_of (filter (\<lambda>(k, n). k \<noteq> q) ns) p = map_of ns p"
  by (induction ns) auto

lemma apply_op_exists_kept:
  assumes "apply_op zx z op = Inr (z', r)" and "exists z p" and "op \<noteq> Remove p"
  shows "exists z' p"
proof (cases op)
  case (Create q d m)
  with assms(1) obtain p' where
    "nodes z' = child_changed (parent_path q) (nodes z) @ [(p', \<lparr>node_data = d, node_czxid = zx, node_cversion = 0\<rparr>)]"
    by (auto simp: Let_def split: if_splits)
  with assms(2) show ?thesis
    by (auto simp: exists_def child_changed_def map_of_change_node map_add_def split: option.splits)
next
  case (SetData q d)
  with assms(1) have "nodes z' = change_node q (\<lambda>n. n\<lparr>node_data := d\<rparr>) (nodes z)"
    by (auto split: if_splits)
  with assms(2) show ?thesis
    by (auto simp: exists_def map_of_change_node)
next
  case (Remove q)
  with assms(3) have "p \<noteq> q" by simp
  moreover from Remove assms(1) have
    "nodes z' = child_changed (parent_path q) (filter (\<lambda>(k, n). k \<noteq> q) (nodes z))"
    by (auto split: if_splits)
  ultimately show ?thesis
    using assms(2) by (auto simp: exists_def child_changed_def map_of_change_node map_of_filter_other)
qed

lemma apply_ops_exists_kept:
  assumes "apply_ops zx z ops = Inr (z', rs)" and "exists z p" and "Remove p \<notin> set ops"
  shows "exists z' p"
  using assms
proof (induction ops arbitrary: z rs)
  case Nil
  then show ?case by simp
next
  case (Cons op ops)
  from Cons.prems(1) obtain z1 r1 rs1 where
    1: "apply_op zx z op = Inr (z1, r1)" and 2: "apply_ops zx z1 ops = Inr (z', rs1)"
    by (auto split: sum.splits)
  from Cons.prems(3) have o: "op \<noteq> Remove p" and n: "Remove p \<notin> set ops"
    by auto
  from 1 Cons.prems(2) o have "exists z1 p"
    by (rule apply_op_exists_kept)
  with 2 show ?case
    using n by (rule Cons.IH)
qed

lemma multi_created:
  assumes "multi z (Create p d Persistent # ops) = Inr (z', rs)" and "Remove p \<notin> set ops"
  shows "exists z' p"
proof -
  from assms(1) obtain z1 r1 z2 rs2 where
    1: "apply_op (last_zxid z + 1) z (Create p d Persistent) = Inr (z1, r1)"
    and 2: "apply_ops (last_zxid z + 1) z1 ops = Inr (z2, rs2)"
    and z': "z' = z2\<lparr>last_zxid := last_zxid z + 1\<rparr>"
    by (auto simp: multi_def split: sum.splits)
  from 1 have "nodes z1 = child_changed (parent_path p) (nodes z) @
                 [(p, \<lparr>node_data = d, node_czxid = last_zxid z + 1, node_cversion = 0\<rparr>)]"
    by (auto simp: Let_def split: if_splits)
  then have "exists z1 p"
    by (simp add: exists_def map_add_def split: option.splits)
  with 2 have "exists z2 p"
    using assms(2) by (rule apply_ops_exists_kept)
  then show ?thesis
    by (simp add: z' exists_def)
qed

lemma fetched_part_registered:
  assumes "multi z (create_part_ops rp part @ remove_part_ops rp removed_parts) = Inr (z', rs)"
    and "\<forall>p \<in> set removed_parts. name p \<noteq> name part \<and> name p @ ''/checksums'' \<noteq> name part"
  shows "exists z' (rp @ ''/parts/'' @ name part)"
proof -
  have "Remove (rp @ ''/parts/'' @ name part)
          \<notin> set (Create (rp @ ''/parts/'' @ name part @ ''/checksums'') (checksums part) Persistent #
                   remove_part_ops rp removed_parts)"
    using assms(2) by (auto simp: remove_part_ops_def)
  moreover from assms(1) have
    "multi z (Create (rp @ ''/parts/'' @ name part) [] Persistent #
              (Create (rp @ ''/parts/'' @ name part @ ''/checksums'') (checksums part) Persistent #
               remove_part_ops rp removed_parts)) = Inr (z', rs)"
    by (simp add: create_part_ops_def)
  ultimately show ?thesis
    by (intro multi_created)
qed
lemma executeLogEntry_own_missing:
  assumes "type e = Some GET_PART" and "source_replica e = replica_name st"
    and "\<forall>part. getContainingPart ext (data st) (new_part_name e) = Some part \<longrightarrow>
           \<not> exists (zookeeper st) (replica_path st @ ''/parts/'' @ name part)"
  shows "executeLogEntry ext st e =
           fetch_or_requeue ext
             (LOG PRIO_ERROR (''Part '' @ new_part_name e @ '' from own log doesn't exist. This is a bug.'') st) e"
proof -
  from assms(3) have "\<not> already_have ext st e"
    by (auto simp: already_have_def split: option.splits)
  with assms(1,2) show ?thesis
    by (simp add: executeLogEntry_def)
qed

text \<open>
  C3 (as amended). For an entry of type \<open>GET_PART\<close> or \<open>MERGE_PARTS\<close>: if a local part
  contains \<open>new_part_name\<close> and its node \<open>/replicas/<me>/parts/<containing>\<close> exists,
  executing the entry succeeds and changes nothing but the log (local parts, coordinator
  and queue are as before). If the entry is a \<open>GET_PART\<close> with \<open>source_replica\<close> equal
  to this replica and there is no such part, this is logged as a bug and the entry is
  then executed like any \<open>GET_PART\<close>, by fetching the part from the first replica, in
  the shuffled order of the children of \<open>/replicas\<close>, that has the part and is active:

  \<^item> when no replica has the part and is active, the entry fails with
    \<open>NO_REPLICA_HAS_PART\<close>, and local parts and coordinator are as before (the queue is
    reordered as after every failed fetch);
  \<^item> when there is such a replica and its host text is read, the fetcher returns the
    part, and the \<open>multi\<close> that registers it succeeds, the entry succeeds: the local
    parts are those \<open>renameTempPartAndReplace\<close> leaves, the coordinator is the one the
    \<open>multi\<close> leaves, in which the node \<open>/replicas/<me>/parts/<part>\<close> exists unless one
    of the operations for the replaced parts removes it, and the queue is as before;
  \<^item> the entry succeeds in no other way: if it succeeds, the fetcher has returned the
    part from a replica that has the part and is active, and the local parts are those
    \<open>renameTempPartAndReplace\<close> leaves for the fetched part.
\<close>

theorem executeLogEntry_existing_part:
  "((type e = Some GET_PART \<or> type e = Some MERGE_PARTS) \<and>
    getContainingPart ext (data st) (new_part_name e) = Some containing_part \<and>
    exists (zookeeper st) (replica_path st @ ''/parts/'' @ name containing_part) \<longrightarrow>
      executeLogEntry ext st e =
        (if type e = Some GET_PART \<and> source_replica e = replica_name st then st
         else LOG PRIO_DEBUG (''Skipping action for part '' @ new_part_name e @ '' - part already exists'') st,
         Inr ())) \<and>
   (type e = Some GET_PART \<and> source_replica e = replica_name st \<and>
    (\<forall>part. getContainingPart ext (data st) (new_part_name e) = Some part \<longrightarrow>
        \<not> exists (zookeeper st) (replica_path st @ ''/parts/'' @ name part)) \<longrightarrow>
      (getChildren (zookeeper st) (zookeeper_path st @ ''/replicas'') = Inr replicas \<and>
       (\<forall>x \<in> set (random_shuffle ext replicas). \<not> has_part_and_is_active st (new_part_name e) x) \<longrightarrow>
         executeLogEntry ext st e =
           ((LOG PRIO_ERROR (''Part '' @ new_part_name e @ '' from own log doesn't exist. This is a bug.'') st)
              \<lparr>queue := fetch_failed (new_part_name e) (queue st)\<rparr>,
            Inl NO_REPLICA_HAS_PART)) \<and>
      (getChildren (zookeeper st) (zookeeper_path st @ ''/replicas'') = Inr replicas \<and>
       random_shuffle ext replicas = skipped @ r # others \<and>
       (\<forall>x \<in> set skipped. \<not> has_part_and_is_active st (new_part_name e) x) \<and>
       has_part_and_is_active st (new_part_name e) r \<and>
       get (zookeeper st) (zookeeper_path st @ ''/replicas/'' @ r @ ''/host'') = Inr host_port_str \<and>
       read_host_port (field_end ext) host_port_str = Inr (host, port) \<and>
       fetcher_fetchPart ext (new_part_name e) (zookeeper_path st @ ''/replicas/'' @ r) host port = Inr fetched \<and>
       renameTempPartAndReplace ext (data st) fetched = (d', part, removed_parts) \<and>
       multi (zookeeper st)
         (create_part_ops (replica_path st) part @ remove_part_ops (replica_path st) removed_parts) = Inr (z', rs) \<longrightarrow>
         snd (executeLogEntry ext st e) = Inr () \<and>
         data (fst (executeLogEntry ext st e)) = d' \<and>
         zookeeper (fst (executeLogEntry ext st e)) = z' \<and>
         queue (fst (executeLogEntry ext st e)) = queue st \<and>
         (PRIO_ERROR, ''Part '' @ new_part_name e @ '' from own log doesn't exist. This is a bug.'')
           \<in> set (log (fst (executeLogEntry ext st e))) \<and>
         ((\<forall>p \<in> set removed_parts. name p \<noteq> name part \<and> name p @ ''/checksums'' \<noteq> name part) \<longrightarrow>
            exists z' (replica_path st @ ''/parts/'' @ name part))) \<and>
      (snd (executeLogEntry ext st e) = Inr () \<longrightarrow>
         (\<exists>replicas r host_port_str host port fetched.
            getChildren (zookeeper st) (zookeeper_path st @ ''/replicas'') = Inr replicas \<and>
            r \<in> set (random_shuffle ext replicas) \<and>
            has_part_and_is_active st (new_part_name e) r \<and>
            get (zookeeper st) (zookeeper_path st @ ''/replicas/'' @ r @ ''/host'') = Inr host_port_str \<and>
            read_host_port (field_end ext) host_port_str = Inr (host, port) \<and>
            fetcher_fetchPart ext (new_part_name e) (zookeeper_path st @ ''/replicas/'' @ r) host port = Inr fetched \<and>
            data (fst (executeLogEntry ext st e)) = fst (renameTempPartAndReplace ext (data st) fetched))))"
  (is "(?have \<longrightarrow> ?skip) \<and> (?own \<longrightarrow> (?none \<longrightarrow> ?fails) \<and> (?found \<longrightarrow> ?fetched) \<and> (?succeeded \<longrightarrow> ?only))")
proof (rule conjI)
  show "?have \<longrightarrow> ?skip"
  proof
    assume ?have
    then have "already_have ext st e"
      by (simp add: already_have_def)
    then show ?skip
      by (simp add: executeLogEntry_def)
  qed
next
  let ?msg = "''Part '' @ new_part_name e @ '' from own log doesn't exist. This is a bug.''"
  let ?st = "LOG PRIO_ERROR ?msg st"
  show "?own \<longrightarrow> (?none \<longrightarrow> ?fails) \<and> (?found \<longrightarrow> ?fetched) \<and> (?succeeded \<longrightarrow> ?only)"
  proof
    assume ?own
    then have x: "executeLogEntry ext st e = fetch_or_requeue ext ?st e"
      by (intro executeLogEntry_own_missing) simp_all
    have a: "?none \<longrightarrow> ?fails"
    proof
      assume n: ?none
      from n have g: "getChildren (zookeeper st) (zookeeper_path st @ ''/replicas'') = Inr replicas" ..
      from n have "\<forall>x \<in> set (random_shuffle ext replicas). \<not> has_part_and_is_active st (new_part_name e) x" ..
      with g have "findActiveReplicaHavingPart ext st (new_part_name e) = Inl NO_REPLICA_HAS_PART"
        by (rule findActiveReplicaHavingPart_none)
      then have "fetch ext ?st e = (?st, Inl NO_REPLICA_HAS_PART)"
        by (simp add: fetch_def findActiveReplicaHavingPart_LOG)
      then show ?fails
        by (simp add: x fetch_or_requeue_def)
    qed
    have b: "?found \<longrightarrow> ?fetched"
    proof
      assume f: ?found
      from f have g: "getChildren (zookeeper st) (zookeeper_path st @ ''/replicas'') = Inr replicas"
        and sh: "random_shuffle ext replicas = skipped @ r # others"
        and sk: "\<forall>x \<in> set skipped. \<not> has_part_and_is_active st (new_part_name e) x"
        and ha: "has_part_and_is_active st (new_part_name e) r"
        and ge: "get (zookeeper st) (zookeeper_path st @ ''/replicas/'' @ r @ ''/host'') = Inr host_port_str"
        and rd: "read_host_port (field_end ext) host_port_str = Inr (host, port)"
        and fe: "fetcher_fetchPart ext (new_part_name e) (zookeeper_path st @ ''/replicas/'' @ r) host port = Inr fetched"
        and rn: "renameTempPartAndReplace ext (data st) fetched = (d', part, removed_parts)"
        and mu: "multi (zookeeper st)
           (create_part_ops (replica_path st) part @ remove_part_ops (replica_path st) removed_parts) = Inr (z', rs)"
        by blast+
      from g sh sk ha have "findActiveReplicaHavingPart ext st (new_part_name e) = Inr r"
        by (rule findActiveReplicaHavingPart_first)
      then have 1: "fetch ext ?st e = fetchPart ext ?st (new_part_name e) r"
        by (simp add: fetch_def findActiveReplicaHavingPart_LOG)
      let ?end = "LOG PRIO_DEBUG ''Fetched part''
              ((log_obsolete (new_part_name e) removed_parts
                  ((LOG PRIO_DEBUG (''Fetching part '' @ new_part_name e @ '' from '' @ r) ?st)\<lparr>data := d'\<rparr>))
                 \<lparr>zookeeper := z'\<rparr>)"
      have "fetchPart ext ?st (new_part_name e) r = (?end, Inr ())"
        by (rule fetchPart_fetched [where host_port_str = host_port_str and host = host and port = port
              and fetched = fetched and part = part and rs = rs]) (use ge rd fe rn mu in simp_all)
      with 1 have 2: "executeLogEntry ext st e = (?end, Inr ())"
        by (simp add: x fetch_or_requeue_def)
      have "(PRIO_ERROR, ?msg) \<in> set (log ((LOG PRIO_DEBUG (''Fetching part '' @ new_part_name e @ '' from '' @ r) ?st)\<lparr>data := d'\<rparr>))"
        by (simp add: LOG_def)
      then have 3: "(PRIO_ERROR, ?msg) \<in> set (log ?end)"
        using log_obsolete_keeps_store [of "new_part_name e" removed_parts
            "(LOG PRIO_DEBUG (''Fetching part '' @ new_part_name e @ '' from '' @ r) ?st)\<lparr>data := d'\<rparr>"]
        by (auto simp: LOG_def)
      have 4: "data ?end = d'" "zookeeper ?end = z'" "queue ?end = queue st"
        by (simp_all add: log_obsolete_keeps_store)
      have 5: "exists z' (replica_path st @ ''/parts/'' @ name part)"
        if "\<forall>p \<in> set removed_parts. name p \<noteq> name part \<and> name p @ ''/checksums'' \<noteq> name part"
        using mu that by (rule fetched_part_registered)
      from 3 4 5 show ?fetched
        unfolding 2 by simp
    qed
    have c: "?succeeded \<longrightarrow> ?only"
    proof
      assume ?succeeded
      then have s: "snd (fetch ext ?st e) = Inr ()"
        and d: "fst (executeLogEntry ext st e) = fst (fetch ext ?st e)"
        by (auto simp: x fetch_or_requeue_def split: prod.splits sum.splits)
      then obtain r where r: "findActiveReplicaHavingPart ext st (new_part_name e) = Inr r"
        by (cases "findActiveReplicaHavingPart ext st (new_part_name e)")
          (auto simp: fetch_def findActiveReplicaHavingPart_LOG)
      then have 1: "fetch ext ?st e = fetchPart ext ?st (new_part_name e) r"
        by (simp add: fetch_def findActiveReplicaHavingPart_LOG)
      from fetchPart_Inr [of ext ?st "new_part_name e" r] s 1
      obtain host_port_str host port fetched where
        "get (zookeeper st) (zookeeper_path st @ ''/replicas/'' @ r @ ''/host'') = Inr host_port_str"
        "read_host_port (field_end ext) host_port_str = Inr (host, port)"
        "fetcher_fetchPart ext (new_part_name e) (zookeeper_path st @ ''/replicas/'' @ r) host port = Inr fetched"
        "data (fst (executeLogEntry ext st e)) = fst (renameTempPartAndReplace ext (data st) fetched)"
        by (auto simp: d)
      with findActiveReplicaHavingPart_Inr [OF r] show ?only
        by blast
    qed
    from a b c show "(?none \<longrightarrow> ?fails) \<and> (?found \<longrightarrow> ?fetched) \<and> (?succeeded \<longrightarrow> ?only)"
      by (intro conjI)
  qed
qed

theorem executeLogEntry_existing_part_witness:
  "executeLogEntry example_collaborators
     (example_storage (r2_has_p2 @ [(''/t/replicas/r1/parts/p2'', example_node [] 12)]) [example_part ''p2'' 2 2] [])
     own_get_p2
   = (example_storage (r2_has_p2 @ [(''/t/replicas/r1/parts/p2'', example_node [] 12)]) [example_part ''p2'' 2 2] [],
      Inr ()) \<and>
   executeLogEntry example_collaborators (example_storage (take 6 r2_has_p2) [] []) own_get_p2
   = ((LOG PRIO_ERROR ''Part p2 from own log doesn't exist. This is a bug.'' (example_storage (take 6 r2_has_p2) [] []))
        \<lparr>queue := []\<rparr>,
      Inl NO_REPLICA_HAS_PART) \<and>
   snd (executeLogEntry example_collaborators (example_storage r2_has_p2 [] []) own_get_p2) = Inr () \<and>
   data (fst (executeLogEntry example_collaborators (example_storage r2_has_p2 [] []) own_get_p2))
     = ([example_part ''p2'' 0 0], []) \<and>
   queue (fst (executeLogEntry example_collaborators (example_storage r2_has_p2 [] []) own_get_p2)) = [] \<and>
   (PRIO_ERROR, ''Part p2 from own log doesn't exist. This is a bug.'')
     \<in> set (log (fst (executeLogEntry example_collaborators (example_storage r2_has_p2 [] []) own_get_p2))) \<and>
   exists (zookeeper (fst (executeLogEntry example_collaborators (example_storage r2_has_p2 [] []) own_get_p2)))
     ''/t/replicas/r1/parts/p2'' \<and>
   (\<exists>replicas r host_port_str host port fetched.
      getChildren (zookeeper (example_storage r2_has_p2 [] [])) ''/t/replicas'' = Inr replicas \<and>
      r \<in> set replicas \<and>
      has_part_and_is_active (example_storage r2_has_p2 [] []) ''p2'' r \<and>
      get (zookeeper (example_storage r2_has_p2 [] [])) (''/t/replicas/'' @ r @ ''/host'') = Inr host_port_str \<and>
      read_host_port line_feed host_port_str = Inr (host, port) \<and>
      fetcher_fetchPart example_collaborators ''p2'' (''/t/replicas/'' @ r) host port = Inr fetched \<and>
      data (fst (executeLogEntry example_collaborators (example_storage r2_has_p2 [] []) own_get_p2))
        = ([fetched], []))"
proof -
  let ?have = "example_storage (r2_has_p2 @ [(''/t/replicas/r1/parts/p2'', example_node [] 12)]) [example_part ''p2'' 2 2] []"
  let ?none = "example_storage (take 6 r2_has_p2) [] []"
  let ?st = "example_storage r2_has_p2 [] []"
  let ?msg = "''Part p2 from own log doesn't exist. This is a bug.''"
  have e: "type own_get_p2 = Some GET_PART" "new_part_name own_get_p2 = ''p2''"
    "source_replica own_get_p2 = ''r1''"
    by (simp_all add: own_get_p2_def)
  have s: "replica_name ?have = ''r1''" "replica_name ?none = ''r1''" "replica_name ?st = ''r1''"
    "replica_path ?st = ''/t/replicas/r1''" "zookeeper_path ?st = ''/t''" "zookeeper_path ?none = ''/t''"
    "replica_path ?have = ''/t/replicas/r1''" "data ?st = ([], [])" "data ?none = ([], [])" "queue ?none = []"
    "queue ?st = []" "data ?have = ([example_part ''p2'' 2 2], [])"
    by (simp_all add: example_storage_def)
  have x: "field_end example_collaborators = line_feed" "random_shuffle example_collaborators = (\<lambda>replicas. replicas)"
    "getContainingPart example_collaborators ([], []) ''p2'' = None"
    "getContainingPart example_collaborators ([example_part ''p2'' 2 2], []) ''p2'' = Some (example_part ''p2'' 2 2)"
    "fetcher_fetchPart example_collaborators ''p2'' ''/t/replicas/r2'' ''example.net'' 9009 = Inr (example_part ''p2'' 0 0)"
    "renameTempPartAndReplace example_collaborators ([], []) (example_part ''p2'' 0 0)
       = (([example_part ''p2'' 0 0], []), example_part ''p2'' 0 0, [])"
    by (simp_all add: example_collaborators_def example_part_def)
  have nm: "name (example_part ''p2'' 0 0) = ''p2''"
    by (simp add: example_part_def)
  have 1: "executeLogEntry example_collaborators ?have own_get_p2 = (?have, Inr ())"
  proof -
    have "exists (zookeeper ?have) (''/t/replicas/r1'' @ ''/parts/'' @ name (example_part ''p2'' 2 2))"
      by code_simp
    then show ?thesis
      using executeLogEntry_existing_part [where e = own_get_p2 and ext = example_collaborators and st = ?have
          and containing_part = "example_part ''p2'' 2 2"]
      by (simp add: e s x)
  qed
  have 2: "executeLogEntry example_collaborators ?none own_get_p2
             = ((LOG PRIO_ERROR ?msg ?none)\<lparr>queue := []\<rparr>, Inl NO_REPLICA_HAS_PART)"
  proof -
    have "getChildren (zookeeper ?none) (''/t'' @ ''/replicas'') = Inr [''r1'', ''r2'']"
      by code_simp
    moreover have "\<forall>x \<in> set [''r1'', ''r2'']. \<not> has_part_and_is_active ?none ''p2'' x"
      by code_simp
    moreover have "fetch_failed ''p2'' [] = []"
      by (simp add: fetch_failed_def)
    ultimately show ?thesis
      using executeLogEntry_existing_part [where e = own_get_p2 and ext = example_collaborators and st = ?none
          and replicas = "[''r1'', ''r2'']"]
      by (simp add: e s x)
  qed
  have "\<not> isl (multi (zookeeper ?st)
           (create_part_ops ''/t/replicas/r1'' (example_part ''p2'' 0 0) @ remove_part_ops ''/t/replicas/r1'' []))"
    by code_simp
  then obtain z' rs where m: "multi (zookeeper ?st)
           (create_part_ops ''/t/replicas/r1'' (example_part ''p2'' 0 0) @ remove_part_ops ''/t/replicas/r1'' [])
         = Inr (z', rs)"
    by (cases "multi (zookeeper ?st)
           (create_part_ops ''/t/replicas/r1'' (example_part ''p2'' 0 0) @ remove_part_ops ''/t/replicas/r1'' [])")
      auto
  have g: "getChildren (zookeeper ?st) (''/t'' @ ''/replicas'') = Inr [''r1'', ''r2'']"
    by code_simp
  have n: "\<forall>x \<in> set [''r1'']. \<not> has_part_and_is_active ?st ''p2'' x"
    by code_simp
  have h: "has_part_and_is_active ?st ''p2'' ''r2''"
    by code_simp
  have t: "get (zookeeper ?st) (''/t'' @ ''/replicas/'' @ ''r2'' @ ''/host'')
             = Inr ''host: example.net\<newline>port: 9009\<newline>''"
    by code_simp
  have p: "read_host_port line_feed ''host: example.net\<newline>port: 9009\<newline>'' = Inr (''example.net'', 9009)"
    by (simp add: read_host_port_def readIntText_def assertString_def readString_def line_feed_def bind_err_def
        assertEOF_def)
  have 3: "snd (executeLogEntry example_collaborators ?st own_get_p2) = Inr () \<and>
           data (fst (executeLogEntry example_collaborators ?st own_get_p2)) = ([example_part ''p2'' 0 0], []) \<and>
           zookeeper (fst (executeLogEntry example_collaborators ?st own_get_p2)) = z' \<and>
           queue (fst (executeLogEntry example_collaborators ?st own_get_p2)) = [] \<and>
           (PRIO_ERROR, ?msg) \<in> set (log (fst (executeLogEntry example_collaborators ?st own_get_p2))) \<and>
           exists z' ''/t/replicas/r1/parts/p2''"
    using executeLogEntry_existing_part [where e = own_get_p2 and ext = example_collaborators and st = ?st
        and replicas = "[''r1'', ''r2'']" and skipped = "[''r1'']" and r = "''r2''" and others = "[]"
        and host_port_str = "''host: example.net\<newline>port: 9009\<newline>''" and host = "''example.net''"
        and port = 9009 and fetched = "example_part ''p2'' 0 0" and d' = "([example_part ''p2'' 0 0], [])"
        and part = "example_part ''p2'' 0 0" and removed_parts = "[]" and z' = z' and rs = rs]
      g n h t p m
    by (simp add: e s x nm)
  have own: "type own_get_p2 = Some GET_PART \<and> source_replica own_get_p2 = replica_name ?st \<and>
    (\<forall>part. getContainingPart example_collaborators (data ?st) (new_part_name own_get_p2) = Some part \<longrightarrow>
        \<not> exists (zookeeper ?st) (replica_path ?st @ ''/parts/'' @ name part))"
    by (simp add: e s x)
  have rn: "renameTempPartAndReplace example_collaborators ([], []) fetched = (([fetched], []), fetched, [])" for fetched
    by (simp add: example_collaborators_def)
  from 3 have "snd (executeLogEntry example_collaborators ?st own_get_p2) = Inr ()" ..
  from executeLogEntry_existing_part [where e = own_get_p2 and ext = example_collaborators and st = ?st,
      THEN conjunct2, rule_format, OF own, THEN conjunct2, THEN conjunct2, rule_format, OF this]
  obtain replicas r host_port_str host port fetched where
    "getChildren (zookeeper ?st) (zookeeper_path ?st @ ''/replicas'') = Inr replicas"
    "r \<in> set (random_shuffle example_collaborators replicas)"
    "has_part_and_is_active ?st (new_part_name own_get_p2) r"
    "get (zookeeper ?st) (zookeeper_path ?st @ ''/replicas/'' @ r @ ''/host'') = Inr host_port_str"
    "read_host_port (field_end example_collaborators) host_port_str = Inr (host, port)"
    "fetcher_fetchPart example_collaborators (new_part_name own_get_p2) (zookeeper_path ?st @ ''/replicas/'' @ r)
       host port = Inr fetched"
    "data (fst (executeLogEntry example_collaborators ?st own_get_p2))
       = fst (renameTempPartAndReplace example_collaborators (data ?st) fetched)"
    by blast
  then have "getChildren (zookeeper ?st) ''/t/replicas'' = Inr replicas \<and>
      r \<in> set replicas \<and>
      has_part_and_is_active ?st ''p2'' r \<and>
      get (zookeeper ?st) (''/t/replicas/'' @ r @ ''/host'') = Inr host_port_str \<and>
      read_host_port line_feed host_port_str = Inr (host, port) \<and>
      fetcher_fetchPart example_collaborators ''p2'' (''/t/replicas/'' @ r) host port = Inr fetched \<and>
      data (fst (executeLogEntry example_collaborators ?st own_get_p2)) = ([fetched], [])"
    by (simp add: e s x rn)
  then have 4: "\<exists>replicas r host_port_str host port fetched.
      getChildren (zookeeper ?st) ''/t/replicas'' = Inr replicas \<and>
      r \<in> set replicas \<and>
      has_part_and_is_active ?st ''p2'' r \<and>
      get (zookeeper ?st) (''/t/replicas/'' @ r @ ''/host'') = Inr host_port_str \<and>
      read_host_port line_feed host_port_str = Inr (host, port) \<and>
      fetcher_fetchPart example_collaborators ''p2'' (''/t/replicas/'' @ r) host port = Inr fetched \<and>
      data (fst (executeLogEntry example_collaborators ?st own_get_p2)) = ([fetched], [])"
    by blast
  from 1 2 3 4 show ?thesis
    by simp
qed

text \<open>
  The entry \<open>own_get_p2\<close> of the own log, for a part that is neither local nor
  registered, is not skipped: the part is fetched from \<open>r2\<close> and registered, and
  without an active replica that has it the entry fails. An entry whose type was never
  assigned is refused even when the part is there.
\<close>

theorem executeLogEntry_own_part_counterexample:
  "type own_get_p2 = Some GET_PART \<and>
   source_replica own_get_p2 = replica_name (example_storage r2_has_p2 [] []) \<and>
   getContainingPart example_collaborators (data (example_storage r2_has_p2 [] [])) (new_part_name own_get_p2) = None \<and>
   getDataParts example_collaborators (data (example_storage r2_has_p2 [] [])) = [] \<and>
   \<not> exists (zookeeper (example_storage r2_has_p2 [] [])) ''/t/replicas/r1/parts/p2'' \<and>
   snd (executeLogEntry example_collaborators (example_storage r2_has_p2 [] []) own_get_p2) = Inr () \<and>
   map name (getDataParts example_collaborators
      (data (fst (executeLogEntry example_collaborators (example_storage r2_has_p2 [] []) own_get_p2)))) = [''p2''] \<and>
   exists (zookeeper (fst (executeLogEntry example_collaborators (example_storage r2_has_p2 [] []) own_get_p2)))
     ''/t/replicas/r1/parts/p2'' \<and>
   snd (executeLogEntry example_collaborators (example_storage (take 6 r2_has_p2) [] []) own_get_p2)
     = Inl NO_REPLICA_HAS_PART \<and>
   snd (executeLogEntry example_collaborators
          (example_storage (r2_has_p2 @ [(''/t/replicas/r1/parts/p2'', example_node [] 12)]) [example_part ''p2'' 2 2] [])
          (own_get_p2\<lparr>type := None\<rparr>))
     = Inl UNEXPECTED_LOG_ENTRY_TYPE"
  by code_simp

section \<open>Properties of the handling of a failed fetch\<close>

lemma merge_entry_first:
  assumes "type m = Some MERGE_PARTS" and "part \<in> set (parts_to_merge m)"
    and "\<forall>x \<in> set a. \<not> (type x = Some MERGE_PARTS \<and> part \<in> set (parts_to_merge x))"
  shows "merge_entry part (a @ m # b) = Some (length a)"
  using assms by (induction a) auto

lemma move_to_end_eq:
  "move_to_end pfm (length a) passed (a @ m # b) =
     passed @ filter (\<lambda>x. \<not> ((type x = Some MERGE_PARTS \<or> type x = Some GET_PART) \<and> new_part_name x \<in> pfm)) a @
     m # b @ filter (\<lambda>x. (type x = Some MERGE_PARTS \<or> type x = Some GET_PART) \<and> new_part_name x \<in> pfm) a"
proof (induction a arbitrary: passed b)
  case Nil
  show ?case by simp
next
  case (Cons x a)
  show ?case
    using Cons.IH [of passed "b @ [x]"] Cons.IH [of "passed @ [x]" b] by simp
qed

lemma fetch_failed_eq:
  assumes "type m = Some MERGE_PARTS" and "part \<in> set (parts_to_merge m)"
    and "\<forall>x \<in> set a. \<not> (type x = Some MERGE_PARTS \<and> part \<in> set (parts_to_merge x))"
    and "\<forall>x \<in> set a. type x \<noteq> None"
  shows "fetch_failed part (a @ m # b) =
           filter (\<lambda>x. new_part_name x \<notin> set (parts_to_merge m)) a @ m # b @
           filter (\<lambda>x. new_part_name x \<in> set (parts_to_merge m)) a"
proof -
  have t: "type x = Some MERGE_PARTS \<or> type x = Some GET_PART" if "x \<in> set a" for x
  proof -
    from that assms(4) obtain ty where "type x = Some ty" by auto
    then show ?thesis by (cases ty) auto
  qed
  have f1: "filter (\<lambda>x. \<not> ((type x = Some MERGE_PARTS \<or> type x = Some GET_PART) \<and> new_part_name x \<in> set (parts_to_merge m))) a
            = filter (\<lambda>x. new_part_name x \<notin> set (parts_to_merge m)) a"
    using t by (intro filter_cong) auto
  have f2: "filter (\<lambda>x. (type x = Some MERGE_PARTS \<or> type x = Some GET_PART) \<and> new_part_name x \<in> set (parts_to_merge m)) a
            = filter (\<lambda>x. new_part_name x \<in> set (parts_to_merge m)) a"
    using t by (intro filter_cong) auto
  have ne: "set (parts_to_merge m) \<noteq> {}"
    using assms(2) by auto
  have "fetch_failed part (a @ m # b) = move_to_end (set (parts_to_merge m)) (length a) [] (a @ m # b)"
    using ne by (simp add: fetch_failed_def merge_entry_first [OF assms(1-3)])
  then show ?thesis
    by (simp only: move_to_end_eq f1 f2 append_Nil)
qed

lemma first_to_execute_eq:
  assumes "\<forall>x \<in> set a. \<not> shouldExecuteLogEntry fp x" and "shouldExecuteLogEntry fp e"
  shows "first_to_execute fp passed (a @ e # b) = Some (passed @ a, e, b)"
  using assms by (induction a arbitrary: passed) auto

lemma fetchPart_keeps:
  "queue (fst (fetchPart ext st n r)) = queue st \<and>
   shutdown_called (fst (fetchPart ext st n r)) = shutdown_called st"
  by (simp add: fetchPart_def Let_def split: sum.splits prod.splits)

lemma fetch_keeps:
  "queue (fst (fetch ext st e)) = queue st \<and> shutdown_called (fst (fetch ext st e)) = shutdown_called st"
  by (simp add: fetch_def fetchPart_keeps split: sum.splits)

lemma fetch_or_requeue_failed:
  assumes "snd (fetch_or_requeue ext st e) \<noteq> Inr ()"
  shows "queue (fst (fetch_or_requeue ext st e)) = fetch_failed (new_part_name e) (queue st) \<and>
         shutdown_called (fst (fetch_or_requeue ext st e)) = shutdown_called st"
proof (cases "fetch ext st e")
  case (Pair st' res)
  with fetch_keeps [of ext st e] have k: "queue st' = queue st" "shutdown_called st' = shutdown_called st"
    by simp_all
  show ?thesis
  proof (cases res)
    case (Inl err)
    with Pair k show ?thesis
      by (simp add: fetch_or_requeue_def)
  next
    case (Inr u)
    with Pair assms show ?thesis
      by (simp add: fetch_or_requeue_def)
  qed
qed

lemma parts_of_merge_keeps:
  "queue (fst (parts_of_merge ext st e ps ns)) = queue st \<and>
   shutdown_called (fst (parts_of_merge ext st e ps ns)) = shutdown_called st"
  by (induction ns arbitrary: ps) (auto split: option.splits)

lemma executeLogEntry_fetch_failed:
  assumes "type e = Some GET_PART \<or>
           (type e = Some MERGE_PARTS \<and> snd (parts_of_merge ext st e [] (parts_to_merge e)) = None)"
    and "snd (executeLogEntry ext st e) \<noteq> Inr ()"
  shows "queue (fst (executeLogEntry ext st e)) = fetch_failed (new_part_name e) (queue st) \<and>
         shutdown_called (fst (executeLogEntry ext st e)) = shutdown_called st"
proof -
  have na: "\<not> already_have ext st e"
    using assms(2) by (auto simp: executeLogEntry_def)
  from assms(1) show ?thesis
  proof
    assume g: "type e = Some GET_PART"
    let ?st1 = "if source_replica e = replica_name st
                then LOG PRIO_ERROR (''Part '' @ new_part_name e @ '' from own log doesn't exist. This is a bug.'') st
                else st"
    have x: "executeLogEntry ext st e = fetch_or_requeue ext ?st1 e"
      using na g by (simp add: executeLogEntry_def)
    have "snd (fetch_or_requeue ext ?st1 e) \<noteq> Inr ()"
      using assms(2) unfolding x .
    from fetch_or_requeue_failed [OF this] show ?thesis
      unfolding x by (simp split: if_splits)
  next
    assume m: "type e = Some MERGE_PARTS \<and> snd (parts_of_merge ext st e [] (parts_to_merge e)) = None"
    obtain st2 where p: "parts_of_merge ext st e [] (parts_to_merge e) = (st2, None)"
      using m by (cases "parts_of_merge ext st e [] (parts_to_merge e)") auto
    have k: "queue st2 = queue st" "shutdown_called st2 = shutdown_called st"
      using parts_of_merge_keeps [of ext st e "[]" "parts_to_merge e"] p by simp_all
    let ?st3 = "LOG PRIO_DEBUG (''Don't have all parts for merge '' @ new_part_name e @
                                      ''; will try to fetch it instead'') st2"
    have x: "executeLogEntry ext st e = fetch_or_requeue ext ?st3 e"
      using na m p by (simp add: executeLogEntry_def)
    have "snd (fetch_or_requeue ext ?st3 e) \<noteq> Inr ()"
      using assms(2) unfolding x .
    from fetch_or_requeue_failed [OF this] show ?thesis
      unfolding x by (simp add: k)
  qed
qed

lemma parts_of_merge_data:
  "data st' = data st \<Longrightarrow> snd (parts_of_merge ext st' e ps ns) = snd (parts_of_merge ext st e ps ns)"
  by (induction ns arbitrary: ps) (auto split: option.splits)

text \<open>
  C5 (as amended). Let a worker that is not shut down take the entry \<open>e\<close> for part
  \<open>P\<close> from the queue (the first entry it may execute), let \<open>e\<close> be one that leads to a
  fetch (a \<open>GET_PART\<close>, or a \<open>MERGE_PARTS\<close> whose source parts are not all local) and let
  its execution fail. Let \<open>M\<close> be the first \<open>MERGE_PARTS\<close> entry of the remaining queue
  \<open>a @ M # b\<close> whose \<open>parts_to_merge\<close> include \<open>P\<close>, and let the entries before it have
  a type. Then the queue becomes: the entries of \<open>a\<close> that do not produce a part of \<open>M\<close>,
  then \<open>M\<close>, then \<open>b\<close>, then the entries of \<open>a\<close> that produce a part of \<open>M\<close>, then
  \<open>e\<close>. So every other entry whose \<open>new_part_name\<close> is among the \<open>parts_to_merge\<close>
  of \<open>M\<close> comes after \<open>M\<close>, and the failed entry is at the tail.
\<close>

theorem queueThread_round_failed_fetch:
  assumes "\<not> shutdown_called st"
    and "queue st = passed @ e # rest"
    and "\<forall>x \<in> set passed. \<not> shouldExecuteLogEntry (future_parts st) x"
    and "shouldExecuteLogEntry (future_parts st) e"
    and "type e = Some GET_PART \<or>
         (type e = Some MERGE_PARTS \<and> snd (parts_of_merge ext st e [] (parts_to_merge e)) = None)"
    and "snd (executeLogEntry ext ((tagPartAsFuture e st)\<lparr>queue := passed @ rest\<rparr>) e) \<noteq> Inr ()"
    and "passed @ rest = a @ m # b"
    and "type m = Some MERGE_PARTS" and "new_part_name e \<in> set (parts_to_merge m)"
    and "\<forall>x \<in> set a. \<not> (type x = Some MERGE_PARTS \<and> new_part_name e \<in> set (parts_to_merge x))"
    and "\<forall>x \<in> set a. type x \<noteq> None"
  shows "queue (queueThread_round ext st) =
           filter (\<lambda>x. new_part_name x \<notin> set (parts_to_merge m)) a @ m # b @
           filter (\<lambda>x. new_part_name x \<in> set (parts_to_merge m)) a @ [e] \<and>
         (\<forall>x \<in> set (filter (\<lambda>x. new_part_name x \<notin> set (parts_to_merge m)) a).
            new_part_name x \<notin> set (parts_to_merge m))"
proof -
  let ?st1 = "(tagPartAsFuture e st)\<lparr>queue := passed @ rest\<rparr>"
  have f: "first_to_execute (future_parts st) [] (queue st) = Some (passed, e, rest)"
    using first_to_execute_eq [OF assms(3,4), of "[]" rest] assms(2) by simp
  have d: "data ?st1 = data st"
    by (simp add: tagPartAsFuture_def)
  have c: "type e = Some GET_PART \<or>
         (type e = Some MERGE_PARTS \<and> snd (parts_of_merge ext ?st1 e [] (parts_to_merge e)) = None)"
    using assms(5) parts_of_merge_data [OF d] by simp
  obtain st2 res where x: "executeLogEntry ext ?st1 e = (st2, res)"
    by (cases "executeLogEntry ext ?st1 e")
  have q: "queue st2 = fetch_failed (new_part_name e) (passed @ rest)"
    and s: "\<not> shutdown_called st2"
    using executeLogEntry_fetch_failed [OF c assms(6)] x assms(1) by (simp_all add: tagPartAsFuture_def)
  from assms(6) x obtain err where res: "res = Inl err"
    by (cases res) auto
  have "queue (queueThread_round ext st) = fetch_failed (new_part_name e) (passed @ rest) @ [e]"
    using s q by (simp add: queueThread_round_def f x res release_future_part_def Let_def)
  then show ?thesis
    unfolding assms(7) fetch_failed_eq [OF assms(8-11)] by simp
qed

theorem queueThread_round_failed_fetch_witness:
  "queue (queueThread_round example_collaborators
     (example_storage (take 6 r2_has_p2) []
        [get_part ''queue-0000000000'' ''A'', get_part ''queue-0000000001'' ''B'',
         merge_parts ''queue-0000000002'' [''A'', ''B''] ''M'', get_part ''queue-0000000003'' ''C'']))
   = [merge_parts ''queue-0000000002'' [''A'', ''B''] ''M'', get_part ''queue-0000000003'' ''C'',
      get_part ''queue-0000000001'' ''B'', get_part ''queue-0000000000'' ''A'']"
proof -
  let ?q = "[get_part ''queue-0000000000'' ''A'', get_part ''queue-0000000001'' ''B'',
         merge_parts ''queue-0000000002'' [''A'', ''B''] ''M'', get_part ''queue-0000000003'' ''C'']"
  let ?st = "example_storage (take 6 r2_has_p2) [] ?q"
  let ?e = "get_part ''queue-0000000000'' ''A''"
  let ?rest = "[get_part ''queue-0000000001'' ''B'',
         merge_parts ''queue-0000000002'' [''A'', ''B''] ''M'', get_part ''queue-0000000003'' ''C'']"
  have 1: "\<not> shutdown_called ?st"
    by (simp add: example_storage_def)
  have 2: "queue ?st = [] @ ?e # ?rest"
    by (simp add: example_storage_def)
  have 3: "\<forall>x \<in> set []. \<not> shouldExecuteLogEntry (future_parts ?st) x"
    by simp
  have 4: "shouldExecuteLogEntry (future_parts ?st) ?e"
    by (simp add: shouldExecuteLogEntry_def get_part_def)
  have 5: "type ?e = Some GET_PART \<or>
         (type ?e = Some MERGE_PARTS \<and> snd (parts_of_merge example_collaborators ?st ?e [] (parts_to_merge ?e)) = None)"
    by (simp add: get_part_def)
  have "snd (executeLogEntry example_collaborators ((tagPartAsFuture ?e ?st)\<lparr>queue := [] @ ?rest\<rparr>) ?e)
          = Inl NO_REPLICA_HAS_PART"
    by code_simp
  then have 6: "snd (executeLogEntry example_collaborators ((tagPartAsFuture ?e ?st)\<lparr>queue := [] @ ?rest\<rparr>) ?e) \<noteq> Inr ()"
    by simp
  have 7: "[] @ ?rest = [get_part ''queue-0000000001'' ''B''] @ merge_parts ''queue-0000000002'' [''A'', ''B''] ''M'' #
                [get_part ''queue-0000000003'' ''C'']"
    by simp
  have 8: "type (merge_parts ''queue-0000000002'' [''A'', ''B''] ''M'') = Some MERGE_PARTS"
    and 9: "new_part_name ?e \<in> set (parts_to_merge (merge_parts ''queue-0000000002'' [''A'', ''B''] ''M''))"
    and 10: "\<forall>x \<in> set [get_part ''queue-0000000001'' ''B''].
               \<not> (type x = Some MERGE_PARTS \<and> new_part_name ?e \<in> set (parts_to_merge x))"
    and 11: "\<forall>x \<in> set [get_part ''queue-0000000001'' ''B'']. type x \<noteq> None"
    by (simp_all add: get_part_def merge_parts_def)
  from queueThread_round_failed_fetch [OF 1 2 3 4 5 6 7 8 9 10 11] show ?thesis
    by (simp add: get_part_def merge_parts_def)
qed

theorem queueThread_round_failed_fetch_counterexample:
  "queue (queueThread_round example_collaborators
     (example_storage (take 6 r2_has_p2) []
        [get_part ''queue-0000000000'' ''P'', get_part ''queue-0000000001'' ''Q'',
         merge_parts ''queue-0000000002'' [''P'', ''X''] ''N1'',
         merge_parts ''queue-0000000003'' [''P'', ''Q''] ''N2'']))
   = [get_part ''queue-0000000001'' ''Q'',
      merge_parts ''queue-0000000002'' [''P'', ''X''] ''N1'',
      merge_parts ''queue-0000000003'' [''P'', ''Q''] ''N2'',
      get_part ''queue-0000000000'' ''P'']"
  by code_simp

section \<open>Properties of the table metadata\<close>

lemma assertString_iff: "assertString s buf = Inr b \<longleftrightarrow> buf = s @ b"
proof
  assume "assertString s buf = Inr b"
  then have "take (length s) buf = s" and "b = drop (length s) buf"
    by (auto simp: assertString_def split: if_splits)
  then show "buf = s @ b"
    by (metis append_take_drop_id)
next
  assume "buf = s @ b"
  then show "assertString s buf = Inr b"
    by (simp add: assertString_def)
qed

lemma bind_err_Inr: "bind_err (Inr x) f = f x"
  by (simp add: bind_err_def)


lemma bind_assertString_iff:
  "bind_err (assertString s buf) f = Inr r \<longleftrightarrow> (\<exists>b. buf = s @ b \<and> f b = Inr r)"
proof
  assume "bind_err (assertString s buf) f = Inr r"
  then obtain b where "assertString s buf = Inr b" and "f b = Inr r"
    by (cases "assertString s buf") (auto simp: bind_err_def)
  then show "\<exists>b. buf = s @ b \<and> f b = Inr r"
    using assertString_iff by blast
next
  assume "\<exists>b. buf = s @ b \<and> f b = Inr r"
  then obtain b where b: "buf = s @ b" and f: "f b = Inr r"
    by blast
  from b have "assertString s buf = Inr b"
    by (simp add: assertString_iff)
  with f show "bind_err (assertString s buf) f = Inr r"
    by (simp add: bind_err_Inr)
qed


text \<open>
  The loop compares the names it reads, not their texts: in the place of the written
  name of a column it accepts every text that \<open>readBackQuotedString\<close> reads as that
  name.
\<close>

lemma check_columns_other_quoting:
  assumes "\<And>rest. readBackQuotedString q (t @ rest) = Inr (fst it, rest)"
    and "check_columns q columns buf = Inr rest"
  shows "check_columns q (it # columns) (t @ '' '' @ snd it @ ''\<newline>'' @ buf) = Inr rest"
  by (simp add: assms bind_err_Inr bind_assertString_iff)















end
